theory Spec2Isabelle
  imports Main "HOL-Library.Word" "HOL-Library.Multiset"
begin

section \<open>Data model\<close>

type_synonym byte = "8 word"
type_synonym bytes = "byte list"

text \<open>
  Modelled from the spec: \<open>AlgorithmId\<close> and its four constants are declared outside
  the checked file. The spec names the closed set SHA1, SHA256, SHA384, SHA512; the Go
  type is an integer, so \<open>hash\<close> has a default branch for every other identifier, which
  \<open>AlgorithmOther\<close> stands for.
\<close>

datatype AlgorithmId =
    AlgorithmSha1
  | AlgorithmSha256
  | AlgorithmSha384
  | AlgorithmSha512
  | AlgorithmOther nat

text \<open>
  Modelled from the spec: \<open>EventType\<close> is declared outside the checked file. The
  constructors are the event types the sources name; \<open>EventTypeOther\<close> stands for every
  other value of the underlying integer type.
\<close>

datatype EventType =
    EventTypePostCode
  | EventTypeNoAction
  | EventTypeSeparator
  | EventTypeAction
  | EventTypeEventTag
  | EventTypeSCRTMContents
  | EventTypeSCRTMVersion
  | EventTypeCPUMicrocode
  | EventTypePlatformConfigFlags
  | EventTypeTableOfDevices
  | EventTypeCompactHash
  | EventTypeIPL
  | EventTypeIPLPartitionData
  | EventTypeNonhostCode
  | EventTypeNonhostConfig
  | EventTypeNonhostInfo
  | EventTypeOmitBootDeviceEvents
  | EventTypeEFIVariableDriverConfig
  | EventTypeEFIVariableBoot
  | EventTypeEFIBootServicesApplication
  | EventTypeEFIBootServicesDriver
  | EventTypeEFIRuntimeServicesDriver
  | EventTypeEFIGPTEvent
  | EventTypeEFIAction
  | EventTypeEFIPlatformFirmwareBlob
  | EventTypeEFIHandoffTables
  | EventTypeEFIHCRTMEvent
  | EventTypeEFIVariableAuthority
  | EventTypeEFIVariableBoot2
  | EventTypeOther nat

type_synonym PCRIndex = "32 word"

text \<open>
  Modelled from the spec: \<open>Spec\<close> is an ordered enumeration of profile versions, an
  unsigned integer in Go, declared outside the checked file. The code only compares a
  spec with \<open>SpecPCClient\<close> (the older PC-Client profile); the number chosen for the
  constant is not used by any proof.
\<close>

type_synonym Spec = nat

definition SpecPCClient :: Spec where
  "SpecPCClient = 1"

datatype ByteOrder = LittleEndian | BigEndian

text \<open>
  Modelled from the spec: the payload variants are declared outside the checked file.
  Each exposes its full raw encoded byte form (\<open>Bytes\<close>) plus the variant's own fields;
  the spec lists opaque bytes, ASCII string, EFI variable record (GUID, name, value bytes,
  full encoded form), EFI GPT record, bootloader command text and kernel command-line
  text. \<open>otherEventData\<close> stands for every payload type that the type switch of
  \<open>determineMeasuredBytes\<close> does not name. The fields are byte sequences; Go's nil
  is modelled only for the slices that the checked file itself can leave unset (the
  result of \<open>determineMeasuredBytes\<close> and a lookup in \<open>zeroDigests\<close>).
\<close>

datatype EventData =
    opaqueEventData (Bytes: bytes)
  | AsciiStringEventData (Bytes: bytes)
  | EFIVariableEventData (Bytes: bytes) (VariableName: bytes) (UnicodeName: string)
      (VariableData: bytes)
  | EFIGPTEventData (Bytes: bytes)
  | KernelCmdlineEventData (Bytes: bytes) (cmdline: bytes)
  | GrubCmdEventData (Bytes: bytes) (cmd: bytes)
  | otherEventData (Bytes: bytes)

type_synonym Digest = bytes

record Event =
  PCRIndex :: PCRIndex
  EventType :: EventType
  Digests :: "AlgorithmId \<rightharpoonup> Digest"
  Data :: EventData

record LogCheckOptions =
  EnableGrub :: bool
  EfiVariableBootQuirk :: bool

section \<open>Placement of event types on PCR indices\<close>

fun isExpectedEventTypeForIndex :: "EventType \<Rightarrow> PCRIndex \<Rightarrow> Spec \<Rightarrow> bool" where
  "isExpectedEventTypeForIndex t i spec =
     (if i > 7 then True
      else case t of
        EventTypePostCode \<Rightarrow> i = 0
      | EventTypeSCRTMContents \<Rightarrow> i = 0
      | EventTypeSCRTMVersion \<Rightarrow> i = 0
      | EventTypeNonhostCode \<Rightarrow> i = 0
      | EventTypeNonhostInfo \<Rightarrow> i = 0
      | EventTypeEFIHCRTMEvent \<Rightarrow> i = 0
      | EventTypeNoAction \<Rightarrow> i = 0 \<or> i = 6
      | EventTypeAction \<Rightarrow> i \<ge> 1 \<and> i \<le> 6
      | EventTypeEFIAction \<Rightarrow> i \<ge> 1 \<and> i \<le> 6
      | EventTypeEventTag \<Rightarrow> i \<le> 4 \<and> spec \<le> SpecPCClient
      | EventTypeCPUMicrocode \<Rightarrow> i = 1
      | EventTypePlatformConfigFlags \<Rightarrow> i = 1
      | EventTypeTableOfDevices \<Rightarrow> i = 1
      | EventTypeNonhostConfig \<Rightarrow> i = 1
      | EventTypeEFIVariableBoot \<Rightarrow> i = 1
      | EventTypeEFIHandoffTables \<Rightarrow> i = 1
      | EventTypeCompactHash \<Rightarrow> i \<ge> 4
      | EventTypeIPL \<Rightarrow> i = 4 \<and> spec \<le> SpecPCClient
      | EventTypeIPLPartitionData \<Rightarrow> i = 5 \<and> spec \<le> SpecPCClient
      | EventTypeOmitBootDeviceEvents \<Rightarrow> i = 4
      | EventTypeEFIVariableDriverConfig \<Rightarrow> i = 1 \<or> i = 3 \<or> i = 5 \<or> i = 7
      | EventTypeEFIBootServicesApplication \<Rightarrow> i = 2 \<or> i = 4
      | EventTypeEFIBootServicesDriver \<Rightarrow> i = 0 \<or> i = 2
      | EventTypeEFIRuntimeServicesDriver \<Rightarrow> i = 0 \<or> i = 2
      | EventTypeEFIGPTEvent \<Rightarrow> i = 5
      | EventTypeEFIPlatformFirmwareBlob \<Rightarrow> i = 0 \<or> i = 2 \<or> i = 4
      | EventTypeEFIVariableAuthority \<Rightarrow> i = 7
      | _ \<Rightarrow> True)"

text \<open>
  The table of section 4.1 of the specification, written from its words: the set of
  permitted indices among 0..7 for each event type, \<open>older\<close> telling whether the log
  follows the older profile.
\<close>

fun placement_table :: "EventType \<Rightarrow> bool \<Rightarrow> nat set" where
  "placement_table EventTypePostCode older = {0}"
| "placement_table EventTypeSCRTMContents older = {0}"
| "placement_table EventTypeSCRTMVersion older = {0}"
| "placement_table EventTypeNonhostCode older = {0}"
| "placement_table EventTypeNonhostInfo older = {0}"
| "placement_table EventTypeEFIHCRTMEvent older = {0}"
| "placement_table EventTypeNoAction older = {0, 6}"
| "placement_table EventTypeAction older = {1, 2, 3, 4, 5, 6}"
| "placement_table EventTypeEFIAction older = {1, 2, 3, 4, 5, 6}"
| "placement_table EventTypeEventTag older = (if older then {0, 1, 2, 3, 4} else {})"
| "placement_table EventTypeCPUMicrocode older = {1}"
| "placement_table EventTypePlatformConfigFlags older = {1}"
| "placement_table EventTypeTableOfDevices older = {1}"
| "placement_table EventTypeNonhostConfig older = {1}"
| "placement_table EventTypeEFIVariableBoot older = {1}"
| "placement_table EventTypeEFIHandoffTables older = {1}"
| "placement_table EventTypeCompactHash older = {4, 5, 6, 7}"
| "placement_table EventTypeIPL older = (if older then {4} else {})"
| "placement_table EventTypeIPLPartitionData older = (if older then {5} else {})"
| "placement_table EventTypeOmitBootDeviceEvents older = {4}"
| "placement_table EventTypeEFIVariableDriverConfig older = {1, 3, 5, 7}"
| "placement_table EventTypeEFIBootServicesApplication older = {2, 4}"
| "placement_table EventTypeEFIBootServicesDriver older = {0, 2}"
| "placement_table EventTypeEFIRuntimeServicesDriver older = {0, 2}"
| "placement_table EventTypeEFIGPTEvent older = {5}"
| "placement_table EventTypeEFIPlatformFirmwareBlob older = {0, 2, 4}"
| "placement_table EventTypeEFIVariableAuthority older = {7}"
| "placement_table EventTypeSeparator older = {0, 1, 2, 3, 4, 5, 6, 7}"
| "placement_table EventTypeEFIVariableBoot2 older = {0, 1, 2, 3, 4, 5, 6, 7}"
| "placement_table (EventTypeOther n) older = {0, 1, 2, 3, 4, 5, 6, 7}"


section \<open>Platform, errors and panics\<close>

text \<open>
  The four digest functions come from Go's standard library and the unsafe word read of
  \<open>checkEventData\<close> uses the byte order of the machine; both are parameters of the model.
\<close>

record platform =
  sha1_Sum :: "bytes \<Rightarrow> bytes"
  sha256_Sum256 :: "bytes \<Rightarrow> bytes"
  sha512_Sum384 :: "bytes \<Rightarrow> bytes"
  sha512_Sum512 :: "bytes \<Rightarrow> bytes"
  nativeEndian :: ByteOrder

datatype panic = PanicInvalidEventType | PanicUnhandledAlgorithm

text \<open>
  Go errors as values: \<open>EOF\<close> is \<open>io.EOF\<close>, the next four are the errors that
  \<open>checkEventData\<close> builds, \<open>OtherError\<close> is any other error of the event stream.
\<close>

datatype goerror =
    EOF
  | UnexpectedEventDataSize nat
  | UnexpectedEventDataContents
  | ExpectedBootAttemptsOmitted
  | ExpectedHCRTM
  | OtherError string



datatype LogCheckReportEntry =
    UnexpectedEventTypeReportEntry Event
  | InvalidEventDataReportEntry Event goerror
  | UnexpectedDigestValueReportEntry Event AlgorithmId "Digest option"

record LogCheckReport =
  Entries :: "LogCheckReportEntry list"

definition append_entry :: "LogCheckReport \<Rightarrow> LogCheckReportEntry \<Rightarrow> LogCheckReport" where
  "append_entry report entry = report\<lparr>Entries := Entries report @ [entry]\<rparr>"

section \<open>Byte order and map iteration\<close>

fun PutUint32 :: "ByteOrder \<Rightarrow> 32 word \<Rightarrow> bytes" where
  "PutUint32 LittleEndian v =
     [ucast v, ucast (drop_bit 8 v), ucast (drop_bit 16 v), ucast (drop_bit 24 v)]"
| "PutUint32 BigEndian v =
     [ucast (drop_bit 24 v), ucast (drop_bit 16 v), ucast (drop_bit 8 v), ucast v]"

text \<open>The number that a byte sequence denotes, least significant byte first.\<close>

fun le_nat :: "bytes \<Rightarrow> nat" where
  "le_nat [] = 0"
| "le_nat (b # bs) = unat b + 256 * le_nat bs"

text \<open>The 32-bit word held by the first four bytes, in the given byte order.\<close>

fun Uint32 :: "ByteOrder \<Rightarrow> bytes \<Rightarrow> 32 word" where
  "Uint32 LittleEndian bs = word_of_nat (le_nat (take 4 bs))"
| "Uint32 BigEndian bs = word_of_nat (le_nat (rev (take 4 bs)))"

text \<open>
  Go visits the entries of a map in an order that the runtime chooses anew for each
  \<open>range\<close> loop. The chosen order of the keys is a parameter of each loop of the model;
  \<open>range_order\<close> says that it lists every key of the map once.
\<close>

definition range_map :: "('k \<rightharpoonup> 'v) \<Rightarrow> 'k list \<Rightarrow> ('k \<times> 'v) list" where
  "range_map m ks = List.map_filter (\<lambda>k. map_option (Pair k) (m k)) ks"

definition range_order :: "('k \<rightharpoonup> 'v) \<Rightarrow> 'k list \<Rightarrow> bool" where
  "range_order m ks = (distinct ks \<and> set ks = dom m)"

text \<open>The orders of the three loops over the digests that checking one event runs.\<close>

record IterOrders =
  order_checkEventData :: "AlgorithmId list"
  order_determineMeasuredBytes :: "AlgorithmId list"
  order_checkEventDigests :: "AlgorithmId list"


section \<open>The checks\<close>

definition separatorEventErrorValue :: "32 word" where
  "separatorEventErrorValue = 1"

definition separatorEventNormalValues :: "32 word list" where
  "separatorEventNormalValues = [0, 0xFFFFFFFF]"

fun hash :: "platform \<Rightarrow> bytes \<Rightarrow> AlgorithmId \<Rightarrow> panic + bytes" where
  "hash P data AlgorithmSha1 = Inr (sha1_Sum P data)"
| "hash P data AlgorithmSha256 = Inr (sha256_Sum256 P data)"
| "hash P data AlgorithmSha384 = Inr (sha512_Sum384 P data)"
| "hash P data AlgorithmSha512 = Inr (sha512_Sum512 P data)"
| "hash P data (AlgorithmOther n) = Inl PanicUnhandledAlgorithm"

text \<open>
  Modelled from the spec: the table \<open>zeroDigests\<close> is declared outside the checked
  file. It holds, for each of the four algorithms, the all-zero digest of that
  algorithm's length; a lookup of any other identifier gives Go's nil.
\<close>

fun zeroDigests :: "AlgorithmId \<Rightarrow> bytes option" where
  "zeroDigests AlgorithmSha1 = Some (replicate 20 0)"
| "zeroDigests AlgorithmSha256 = Some (replicate 32 0)"
| "zeroDigests AlgorithmSha384 = Some (replicate 48 0)"
| "zeroDigests AlgorithmSha512 = Some (replicate 64 0)"
| "zeroDigests (AlgorithmOther n) = None"

definition isSeparatorEventError ::
  "platform \<Rightarrow> Event \<Rightarrow> ByteOrder \<Rightarrow> AlgorithmId list \<Rightarrow> panic + bool" where
  "isSeparatorEventError P event order ks =
     (if EventType event \<noteq> EventTypeSeparator then Inl PanicInvalidEventType
      else
        let errorValue = PutUint32 order separatorEventErrorValue in
        case range_map (Digests event) ks of
          [] \<Rightarrow> Inr False
        | (alg, digest) # _ \<Rightarrow>
            (case hash P errorValue alg of
               Inl p \<Rightarrow> Inl p
             | Inr h \<Rightarrow> Inr (digest = h)))"

definition ascii :: "string \<Rightarrow> bytes" where
  "ascii s = map (\<lambda>c. of_char c) s"

definition checkEventData ::
  "platform \<Rightarrow> Event \<Rightarrow> ByteOrder \<Rightarrow> AlgorithmId list \<Rightarrow> panic + goerror option" where
  "checkEventData P event order ks =
     (case EventType event of
        EventTypeSeparator \<Rightarrow>
          (case isSeparatorEventError P event order ks of
             Inl p \<Rightarrow> Inl p
           | Inr True \<Rightarrow> Inr None
           | Inr False \<Rightarrow>
               let s = length (Bytes (Data event)) in
               if s \<noteq> 4 then Inr (Some (UnexpectedEventDataSize s))
               else if Uint32 (nativeEndian P) (Bytes (Data event))
                         \<in> set separatorEventNormalValues
                 then Inr None
                 else Inr (Some UnexpectedEventDataContents))
      | EventTypeCompactHash \<Rightarrow>
          (let s = length (Bytes (Data event)) in
           if s = 4 then Inr None else Inr (Some (UnexpectedEventDataSize s)))
      | EventTypeOmitBootDeviceEvents \<Rightarrow>
          (if Bytes (Data event) = ascii ''BOOT ATTEMPTS OMITTED'' then Inr None
           else Inr (Some ExpectedBootAttemptsOmitted))
      | EventTypeEFIHCRTMEvent \<Rightarrow>
          (if Bytes (Data event) = ascii ''HCRTM'' then Inr None
           else Inr (Some ExpectedHCRTM))
      | _ \<Rightarrow> Inr None)"

text \<open>
  A Go byte slice that may be nil is a \<open>bytes option\<close>, \<open>None\<close> being nil;
  \<open>bytes.Compare\<close> gives 0 exactly for equal sequences.
\<close>

definition isExpectedDigestValue ::
  "platform \<Rightarrow> Digest \<Rightarrow> EventType \<Rightarrow> AlgorithmId \<Rightarrow> bytes option
     \<Rightarrow> panic + (bool \<times> bytes option)" where
  "isExpectedDigestValue P digest t alg measuredBytes =
     (case (if t = EventTypeNoAction then Inr (zeroDigests alg)
            else case measuredBytes of
                   Some mb \<Rightarrow> map_sum id Some (hash P mb alg)
                 | None \<Rightarrow> Inr None) of
        Inl p \<Rightarrow> Inl p
      | Inr None \<Rightarrow> Inr (True, None)
      | Inr (Some expected) \<Rightarrow> Inr (digest = expected, Some expected))"

definition determineMeasuredBytes ::
  "platform \<Rightarrow> Event \<Rightarrow> ByteOrder \<Rightarrow> LogCheckOptions \<Rightarrow> AlgorithmId list
     \<Rightarrow> panic + bytes option" where
  "determineMeasuredBytes P event order options ks =
     (case (case Data event of
              opaqueEventData raw \<Rightarrow>
                (if EventType event \<in> {EventTypeEventTag, EventTypeSCRTMVersion,
                      EventTypePlatformConfigFlags, EventTypeTableOfDevices,
                      EventTypeNonhostInfo, EventTypeOmitBootDeviceEvents}
                 then Inr (Some (Bytes (Data event)))
                 else if EventType event = EventTypeSeparator then
                   (case isSeparatorEventError P event order ks of
                      Inl p \<Rightarrow> Inl p
                    | Inr isErr \<Rightarrow>
                        if \<not> isErr then Inr (Some (Bytes (Data event))) else Inr None)
                 else Inr None)
            | AsciiStringEventData raw \<Rightarrow>
                (if EventType event \<in> {EventTypeAction, EventTypeEFIAction}
                 then Inr (Some (Bytes (Data event))) else Inr None)
            | EFIVariableEventData raw guid name value \<Rightarrow>
                (if EventType event = EventTypeEFIVariableBoot
                      \<and> \<not> EfiVariableBootQuirk options
                 then Inr (Some value)
                 else Inr (Some (Bytes (Data event))))
            | EFIGPTEventData raw \<Rightarrow> Inr (Some (Bytes (Data event)))
            | KernelCmdlineEventData raw text \<Rightarrow> Inr (Some text)
            | GrubCmdEventData raw text \<Rightarrow> Inr (Some text)
            | otherEventData raw \<Rightarrow> Inr None) of
        Inl p \<Rightarrow> Inl p
      | Inr (Some out) \<Rightarrow> Inr (Some out)
      | Inr None \<Rightarrow>
          if EventType event = EventTypeSeparator
          then Inr (Some (PutUint32 order separatorEventErrorValue))
          else Inr None)"

fun checkEventDigests_loop ::
  "platform \<Rightarrow> Event \<Rightarrow> bytes option \<Rightarrow> (AlgorithmId \<times> Digest) list \<Rightarrow> LogCheckReport
     \<Rightarrow> panic + LogCheckReport" where
  "checkEventDigests_loop P event measuredBytes [] report = Inr report"
| "checkEventDigests_loop P event measuredBytes ((alg, digest) # rest) report =
     (case isExpectedDigestValue P digest (EventType event) alg measuredBytes of
        Inl p \<Rightarrow> Inl p
      | Inr (ok, expected) \<Rightarrow>
          checkEventDigests_loop P event measuredBytes rest
            (if \<not> ok
             then append_entry report (UnexpectedDigestValueReportEntry event alg expected)
             else report))"

definition checkEventDigests ::
  "platform \<Rightarrow> Event \<Rightarrow> ByteOrder \<Rightarrow> LogCheckOptions \<Rightarrow> AlgorithmId list
     \<Rightarrow> AlgorithmId list \<Rightarrow> LogCheckReport \<Rightarrow> panic + LogCheckReport" where
  "checkEventDigests P event order options ks_measured ks report =
     (case determineMeasuredBytes P event order options ks_measured of
        Inl p \<Rightarrow> Inl p
      | Inr measuredBytes \<Rightarrow>
          checkEventDigests_loop P event measuredBytes (range_map (Digests event) ks) report)"

definition checkEvent ::
  "platform \<Rightarrow> Event \<Rightarrow> goerror option \<Rightarrow> Spec \<Rightarrow> ByteOrder \<Rightarrow> LogCheckOptions
     \<Rightarrow> IterOrders \<Rightarrow> LogCheckReport \<Rightarrow> panic + LogCheckReport" where
  "checkEvent P event dataErr spec order options os report =
     (let report1 =
            (if \<not> isExpectedEventTypeForIndex (EventType event) (PCRIndex event) spec
             then append_entry report (UnexpectedEventTypeReportEntry event)
             else report);
          report2 =
            (case dataErr of
               Some err \<Rightarrow> append_entry report1 (InvalidEventDataReportEntry event err)
             | None \<Rightarrow> report1)
      in case checkEventData P event order (order_checkEventData os) of
           Inl p \<Rightarrow> Inl p
         | Inr res \<Rightarrow>
             checkEventDigests P event order options
               (order_determineMeasuredBytes os) (order_checkEventDigests os)
               (case res of
                  Some err \<Rightarrow> append_entry report2 (InvalidEventDataReportEntry event err)
                | None \<Rightarrow> report2))"

section \<open>The driver\<close>

text \<open>
  The log and its decoder are declared outside the checked file. A log holds the spec
  version, the declared byte order and the state \<open>'w\<close> of the event stream; the
  environment gives the decoder's step \<open>nextEventInternal\<close>, which returns an optional
  event, an optional error and the next state, and the map iteration orders that the
  runtime chooses while the event pulled in a state is checked.
\<close>

record 'w Log =
  Spec :: Spec
  byteOrder :: ByteOrder
  stream :: 'w

record 'w environment =
  nextEventInternal :: "'w \<Rightarrow> (Event option \<times> goerror option) \<times> 'w"
  mapOrders :: "'w \<Rightarrow> IterOrders"

type_synonym outcome = "panic + (LogCheckReport option \<times> goerror option)"

partial_function (option) checkLog_loop ::
  "platform \<Rightarrow> 'w environment \<Rightarrow> 'w Log \<Rightarrow> LogCheckOptions \<Rightarrow> LogCheckReport
     \<Rightarrow> outcome option" where
  "checkLog_loop P W log options report =
     (case nextEventInternal W (stream log) of
        ((None, err), w') \<Rightarrow>
          (if err = Some EOF then Some (Inr (Some report, None))
           else Some (Inr (None, err)))
      | ((Some event, err), w') \<Rightarrow>
          (case checkEvent P event err (Spec log) (byteOrder log) options
                  (mapOrders W (stream log)) report of
             Inl p \<Rightarrow> Some (Inl p)
           | Inr report' \<Rightarrow> checkLog_loop P W (log\<lparr>stream := w'\<rparr>) options report'))"

definition checkLog ::
  "platform \<Rightarrow> 'w environment \<Rightarrow> 'w Log \<Rightarrow> LogCheckOptions \<Rightarrow> outcome option" where
  "checkLog P W log options = checkLog_loop P W log options \<lparr>Entries = []\<rparr>"

text \<open>
  \<open>NewLogFromByteReader\<close> is declared outside the checked file; \<open>newLog\<close> is that
  decoder, applied to the reader and to the \<open>EnableGrub\<close> field of its options.
\<close>

definition CheckLogFromByteReader ::
  "platform \<Rightarrow> 'w environment \<Rightarrow> ('r \<Rightarrow> bool \<Rightarrow> goerror + 'w Log) \<Rightarrow> 'r \<Rightarrow> LogCheckOptions
     \<Rightarrow> outcome option" where
  "CheckLogFromByteReader P W newLog reader options =
     (case newLog reader (EnableGrub options) of
        Inl err \<Rightarrow> Some (Inr (None, Some err))
      | Inr log \<Rightarrow> checkLog P W log options)"

section \<open>Runs of the driver\<close>

text \<open>
  What the theorems about the driver speak of: the finite sequence of events that the
  stream yields from one state to another, each with its decode error and with the
  iteration orders in force while it is checked, and the checks of such a sequence in
  order, a panic ending them.
\<close>

fun pulls ::
  "'w environment \<Rightarrow> 'w \<Rightarrow> (Event \<times> goerror option \<times> IterOrders) list \<Rightarrow> 'w \<Rightarrow> bool" where
  "pulls W w [] w' = (w' = w)"
| "pulls W w ((event, err, os) # rest) w' =
     (case nextEventInternal W w of
        ((Some event', err'), w1) \<Rightarrow>
          event' = event \<and> err' = err \<and> mapOrders W w = os \<and> pulls W w1 rest w'
      | ((None, err'), w1) \<Rightarrow> False)"

fun checkEvents ::
  "platform \<Rightarrow> Spec \<Rightarrow> ByteOrder \<Rightarrow> LogCheckOptions
     \<Rightarrow> (Event \<times> goerror option \<times> IterOrders) list \<Rightarrow> LogCheckReport
     \<Rightarrow> panic + LogCheckReport" where
  "checkEvents P spec order options [] report = Inr report"
| "checkEvents P spec order options ((event, err, os) # rest) report =
     (case checkEvent P event err spec order options os report of
        Inl p \<Rightarrow> Inl p
      | Inr report' \<Rightarrow> checkEvents P spec order options rest report')"

text \<open>
  The outcomes that a run from a stream state can have: the events pulled up to some
  state, and then either a panic of their checks, or the end of the stream there.
\<close>

definition run_of ::
  "platform \<Rightarrow> 'w environment \<Rightarrow> 'w Log \<Rightarrow> LogCheckOptions \<Rightarrow> LogCheckReport \<Rightarrow> outcome
     \<Rightarrow> bool" where
  "run_of P W log options report y =
     (\<exists>evs w'. pulls W (stream log) evs w' \<and>
           (case checkEvents P (Spec log) (byteOrder log) options evs report of
              Inl p \<Rightarrow> y = Inl p
            | Inr r \<Rightarrow> \<exists>err w''. nextEventInternal W w' = ((None, err), w'') \<and>
                  y = Inr (if err = Some EOF then (Some r, None) else (None, err))))"



section \<open>Sample inputs\<close>

text \<open>
  A platform whose digest functions put a tag byte in front of the data (so they are
  injective and differ from each other), on a big-endian machine; options with both
  switches off; the same key order for the three loops of one event.
\<close>

definition sample_platform :: platform where
  "sample_platform =
     \<lparr>sha1_Sum = (\<lambda>bs. 1 # bs), sha256_Sum256 = (\<lambda>bs. 2 # bs),
      sha512_Sum384 = (\<lambda>bs. 3 # bs), sha512_Sum512 = (\<lambda>bs. 4 # bs),
      nativeEndian = BigEndian\<rparr>"

definition sample_options :: LogCheckOptions where
  "sample_options = \<lparr>EnableGrub = False, EfiVariableBootQuirk = False\<rparr>"

definition same_order :: "AlgorithmId list \<Rightarrow> IterOrders" where
  "same_order ks =
     \<lparr>order_checkEventData = ks, order_determineMeasuredBytes = ks,
      order_checkEventDigests = ks\<rparr>"

definition sample_noaction :: Event where
  "sample_noaction =
     \<lparr>PCRIndex = 0, EventType = EventTypeNoAction,
      Digests = [AlgorithmSha1 \<mapsto> replicate 20 0, AlgorithmSha256 \<mapsto> [1]],
      Data = otherEventData [5]\<rparr>"

definition sample_error_separator :: Event where
  "sample_error_separator =
     \<lparr>PCRIndex = 7, EventType = EventTypeSeparator,
      Digests = [AlgorithmSha1 \<mapsto> [1, 1, 0, 0, 0]],
      Data = opaqueEventData [9, 9]\<rparr>"

definition sample_gpt_separator :: Event where
  "sample_gpt_separator =
     \<lparr>PCRIndex = 5, EventType = EventTypeSeparator,
      Digests = [AlgorithmSha1 \<mapsto> [1, 1, 0, 0, 0]],
      Data = EFIGPTEventData [7, 7, 7, 7]\<rparr>"

definition sample_normal_separator :: Event where
  "sample_normal_separator =
     \<lparr>PCRIndex = 4, EventType = EventTypeSeparator,
      Digests = [AlgorithmSha1 \<mapsto> [1, 255, 255, 255, 255],
                 AlgorithmSha256 \<mapsto> [2, 255, 255, 255, 255]],
      Data = opaqueEventData [255, 255, 255, 255]\<rparr>"


definition sample_bare_separator :: Event where
  "sample_bare_separator =
     \<lparr>PCRIndex = 0, EventType = EventTypeSeparator, Digests = Map.empty,
      Data = opaqueEventData [1, 2]\<rparr>"

definition sample_efi_boot :: Event where
  "sample_efi_boot =
     \<lparr>PCRIndex = 1, EventType = EventTypeEFIVariableBoot,
      Digests = [AlgorithmSha256 \<mapsto> [2, 4, 5]],
      Data = EFIVariableEventData [1, 2, 3, 4, 5] [6] ''BootOrder'' [4, 5]\<rparr>"

definition sample_kernel_cmdline :: Event where
  "sample_kernel_cmdline =
     \<lparr>PCRIndex = 8, EventType = EventTypeIPL,
      Digests = [AlgorithmSha256 \<mapsto> [2, 114, 111]],
      Data = KernelCmdlineEventData [107, 58, 114, 111] [114, 111]\<rparr>"

definition sample_noaction_efi :: Event where
  "sample_noaction_efi =
     \<lparr>PCRIndex = 0, EventType = EventTypeNoAction,
      Digests = [AlgorithmSha256 \<mapsto> [2, 1, 2, 3, 4, 5]],
      Data = EFIVariableEventData [1, 2, 3, 4, 5] [6] ''BootOrder'' [4, 5]\<rparr>"


text \<open>
  A stream over the states 0, 1, 2, ...: a normal separator, then a NoAction event that
  comes with a decode error, then the clean end; every state from 3 on reports a
  corrupted stream.
\<close>

definition sample_environment :: "nat environment" where
  "sample_environment =
     \<lparr>nextEventInternal =
        (\<lambda>w. if w = 0 then ((Some sample_normal_separator, None), 1)
             else if w = 1 then ((Some sample_noaction, Some (OtherError ''decode'')), 2)
             else if w = 2 then ((None, Some EOF), 2)
             else ((None, Some (OtherError ''corrupt'')), w)),
      mapOrders = (\<lambda>w. same_order [AlgorithmSha1, AlgorithmSha256])\<rparr>"

definition sample_log :: "nat Log" where
  "sample_log = \<lparr>Spec = SpecPCClient, byteOrder = LittleEndian, stream = 0\<rparr>"

section \<open>Properties\<close>

subsection \<open>Placement\<close>

text \<open>
  Claim C1. For every event type, PCR index and spec version the placement check
  returns exactly the table of section 4.1: for an index in 0..7 it holds exactly when the
  index is in the row of the event type (the rows of EventTag, IPL and IPLPartitionData
  being empty unless the spec is at or below the PC-Client profile, every type that the
  table does not name being valid everywhere), and for an index greater than 7 it holds
  whatever the event type and the spec version.
\<close>

theorem placement_matrix:
  "isExpectedEventTypeForIndex t i spec =
     (7 < i \<or> unat i \<in> placement_table t (spec \<le> SpecPCClient))"
proof (cases "7 < i")
  case True
  then show ?thesis by simp
next
  case False
  then have le: "unat i \<le> 7"
    by (simp add: word_less_nat_alt)
  show ?thesis
    using False le
    by (cases t) (auto simp: word_le_nat_alt word_less_nat_alt word_unat_eq_iff)
qed

subsection \<open>Map iteration and the NoAction digests\<close>

lemma range_map_Nil [simp]: "range_map m [] = []"
  by (simp add: range_map_def map_filter_simps)

lemma range_map_Cons:
  "range_map m (k # ks) = (case m k of None \<Rightarrow> range_map m ks | Some v \<Rightarrow> (k, v) # range_map m ks)"
  by (simp add: range_map_def map_filter_simps split: option.splits)

lemma range_map_dom:
  "set ks \<subseteq> dom m \<Longrightarrow> range_map m ks = map (\<lambda>k. (k, the (m k))) ks"
  by (induction ks) (auto simp: range_map_Cons split: option.splits)

lemma range_map_keys: "(k, v) \<in> set (range_map m ks) \<Longrightarrow> m k = Some v"
  by (induction ks) (auto simp: range_map_Cons split: option.splits)

lemma append_entry_Entries [simp]: "Entries (append_entry r e) = Entries r @ [e]"
  by (simp add: append_entry_def)

lemma append_entry_alt: "append_entry r e = r\<lparr>Entries := Entries r @ [e]\<rparr>"
  by (simp add: append_entry_def)

lemma determineMeasuredBytes_not_Separator:
  "EventType event \<noteq> EventTypeSeparator \<Longrightarrow>
     \<exists>mb. determineMeasuredBytes P event order options ks = Inr mb"
  by (simp add: determineMeasuredBytes_def split: EventData.splits)

lemma isExpectedDigestValue_NoAction:
  "isExpectedDigestValue P digest EventTypeNoAction alg mb =
     (case zeroDigests alg of None \<Rightarrow> Inr (True, None) | Some z \<Rightarrow> Inr (digest = z, Some z))"
  by (simp add: isExpectedDigestValue_def split: option.splits)

lemma loop_NoAction:
  "EventType event = EventTypeNoAction \<Longrightarrow>
   checkEventDigests_loop P event mb kvs report =
     Inr (report\<lparr>Entries := Entries report @
            map (\<lambda>(alg, d). UnexpectedDigestValueReportEntry event alg (zeroDigests alg))
              (filter (\<lambda>(alg, d). zeroDigests alg \<noteq> None \<and> Some d \<noteq> zeroDigests alg) kvs)\<rparr>)"
proof (induction kvs arbitrary: report)
  case Nil
  then show ?case by simp
next
  case (Cons kv kvs)
  obtain alg d where kv: "kv = (alg, d)" by (cases kv)
  show ?case
    using Cons.prems
    by (cases "zeroDigests alg")
       (simp_all add: kv isExpectedDigestValue_NoAction Cons.IH [OF Cons.prems] append_entry_alt)
qed

lemma count_list_distinct:
  "distinct xs \<Longrightarrow> count_list xs x = (if x \<in> set xs then 1 else 0)"
  by (induction xs) auto

text \<open>
  Claim C2. For a NoAction event, whatever its payload, the options and the measured
  bytes that the resolver gives, the digest check appends, in the order in which the
  digests are visited, one UnexpectedDigestValue entry carrying the all-zero digest for
  each algorithm of the table whose recorded digest is not the all-zero digest of that
  algorithm's length, and nothing else: each such algorithm has exactly one entry, every
  other algorithm has none.
\<close>

theorem noaction_digests:
  assumes "EventType event = EventTypeNoAction"
    and "range_order (Digests event) ks"
  shows "checkEventDigests P event order options ks_measured ks report =
           Inr (report\<lparr>Entries := Entries report @
             map (\<lambda>alg. UnexpectedDigestValueReportEntry event alg (zeroDigests alg))
               (filter (\<lambda>alg. zeroDigests alg \<noteq> None \<and> Digests event alg \<noteq> zeroDigests alg) ks)\<rparr>)
         \<and> (\<forall>alg. count_list
               (map (\<lambda>alg. UnexpectedDigestValueReportEntry event alg (zeroDigests alg))
                 (filter (\<lambda>alg. zeroDigests alg \<noteq> None \<and> Digests event alg \<noteq> zeroDigests alg) ks))
               (UnexpectedDigestValueReportEntry event alg (zeroDigests alg))
             = (if alg \<in> dom (Digests event) \<and> zeroDigests alg \<noteq> None
                     \<and> Digests event alg \<noteq> zeroDigests alg then 1 else 0))"
proof -
  let ?bad = "\<lambda>alg. zeroDigests alg \<noteq> None \<and> Digests event alg \<noteq> zeroDigests alg"
  let ?entry = "\<lambda>alg. UnexpectedDigestValueReportEntry event alg (zeroDigests alg)"
  have sub: "set ks \<subseteq> dom (Digests event)" and dist: "distinct ks"
    and dom: "set ks = dom (Digests event)"
    using assms(2) by (auto simp: range_order_def)
  obtain mb where mb: "determineMeasuredBytes P event order options ks_measured = Inr mb"
    using determineMeasuredBytes_not_Separator [of event] assms(1) by fastforce
  have filt: "filter (\<lambda>(alg, d). zeroDigests alg \<noteq> None \<and> Some d \<noteq> zeroDigests alg)
                (map (\<lambda>k. (k, the (Digests event k))) ks)
              = map (\<lambda>k. (k, the (Digests event k))) (filter ?bad ks)"
    using sub by (induction ks) auto
  have pairs: "map (\<lambda>(alg, d). UnexpectedDigestValueReportEntry event alg (zeroDigests alg))
                 (filter (\<lambda>(alg, d). zeroDigests alg \<noteq> None \<and> Some d \<noteq> zeroDigests alg)
                   (map (\<lambda>k. (k, the (Digests event k))) ks))
               = map ?entry (filter ?bad ks)"
    by (simp only: filt) (simp add: comp_def)
  have "checkEventDigests P event order options ks_measured ks report =
          checkEventDigests_loop P event mb (map (\<lambda>k. (k, the (Digests event k))) ks) report"
    by (simp add: checkEventDigests_def mb range_map_dom [OF sub])
  also have "\<dots> = Inr (report\<lparr>Entries := Entries report @ map ?entry (filter ?bad ks)\<rparr>)"
    by (simp only: loop_NoAction [OF assms(1)] pairs)
  finally have first: "checkEventDigests P event order options ks_measured ks report =
           Inr (report\<lparr>Entries := Entries report @ map ?entry (filter ?bad ks)\<rparr>)" .
  have inj: "inj ?entry" by (simp add: inj_on_def)
  have cnt: "count_list (map ?entry (filter ?bad ks)) (?entry alg)
               = (if alg \<in> dom (Digests event) \<and> ?bad alg then 1 else 0)" for alg
  proof -
    have "count_list (map ?entry (filter ?bad ks)) (?entry alg) = count_list (filter ?bad ks) alg"
      using inj by (rule count_list_map_conv)
    also have "\<dots> = (if alg \<in> set (filter ?bad ks) then 1 else 0)"
      using dist by (simp add: count_list_distinct)
    finally show ?thesis using dom by auto
  qed
  show ?thesis using first cnt by blast
qed


subsection \<open>Byte order\<close>

lemma PutUint32_one:
  "PutUint32 LittleEndian separatorEventErrorValue = [1, 0, 0, 0]"
  "PutUint32 BigEndian separatorEventErrorValue = [0, 0, 0, 1]"
  by (simp_all add: separatorEventErrorValue_def)

lemma le_nat4:
  "le_nat [a, b, c, d] = unat a + 256 * unat b + 65536 * unat c + 16777216 * unat d"
  by simp

lemma byte_bound: "unat (b :: byte) \<le> 255"
  using unsigned_less [of b, where 'a = nat] by simp

lemma byte_eq_iff: "(b = (0 :: byte)) = (unat b = 0)" "(b = (255 :: byte)) = (unat b = 255)"
  by (simp_all add: word_unat_eq_iff)

lemma word32_of_nat_eq_iff:
  "n < 2 ^ 32 \<Longrightarrow> m < 2 ^ 32 \<Longrightarrow> ((word_of_nat n :: 32 word) = word_of_nat m) = (n = m)"
  by (simp add: word_of_nat_eq_iff take_bit_nat_eq_self)

lemma quad_canonical:
  fixes a b c d :: byte
  defines "n \<equiv> unat a + 256 * unat b + 65536 * unat c + 16777216 * unat d"
  shows "((word_of_nat n :: 32 word) = 0 \<or> (word_of_nat n :: 32 word) = 0xFFFFFFFF)
           = ([a, b, c, d] = [0, 0, 0, 0] \<or> [a, b, c, d] = [255, 255, 255, 255])"
proof -
  have bd: "unat a \<le> 255" "unat b \<le> 255" "unat c \<le> 255" "unat d \<le> 255"
    by (rule byte_bound)+
  then have lt: "n < 2 ^ 32" by (simp add: n_def)
  have z: "((word_of_nat n :: 32 word) = 0) = (n = 0)"
    using word32_of_nat_eq_iff [OF lt, of 0] by simp
  have m: "((word_of_nat n :: 32 word) = 0xFFFFFFFF) = (n = 4294967295)"
    using word32_of_nat_eq_iff [OF lt, of 4294967295] by simp
  have z': "(n = 0) = (unat a = 0 \<and> unat b = 0 \<and> unat c = 0 \<and> unat d = 0)"
    by (simp add: n_def)
  have m': "(n = 4294967295) = (unat a = 255 \<and> unat b = 255 \<and> unat c = 255 \<and> unat d = 255)"
    using bd unfolding n_def by arith
  show ?thesis
    by (simp only: z m z' m' byte_eq_iff list.inject simp_thms)
qed

lemma Uint32_canonical:
  assumes "length bs = 4"
  shows "(Uint32 ord bs = 0 \<or> Uint32 ord bs = 0xFFFFFFFF)
           = (bs = [0, 0, 0, 0] \<or> bs = [255, 255, 255, 255])"
proof -
  obtain a b c d where bs: "bs = [a, b, c, d]"
    using assms by (auto simp: length_Suc_conv numeral_eq_Suc)
  show ?thesis
  proof (cases ord)
    case LittleEndian
    then show ?thesis
      using quad_canonical [of a b c d] by (simp add: bs add.assoc)
  next
    case BigEndian
    then show ?thesis
      using quad_canonical [of d c b a] by (auto simp: bs add.assoc)
  qed
qed

lemma Uint32_order_irrelevant:
  "length bs = 4 \<Longrightarrow>
     (Uint32 o1 bs \<in> set separatorEventNormalValues) = (Uint32 o2 bs = 0 \<or> Uint32 o2 bs = 0xFFFFFFFF)"
  using Uint32_canonical [of bs o1] Uint32_canonical [of bs o2]
  by (simp add: separatorEventNormalValues_def)


subsection \<open>Separator classification\<close>

lemma isSeparatorEventError_empty:
  "EventType event = EventTypeSeparator \<Longrightarrow> range_map (Digests event) ks = [] \<Longrightarrow>
     isSeparatorEventError P event order ks = Inr False"
  by (simp add: isSeparatorEventError_def)

lemma isSeparatorEventError_first:
  "EventType event = EventTypeSeparator \<Longrightarrow> ks = alg # rest \<Longrightarrow>
   Digests event alg = Some digest \<Longrightarrow>
   hash P (PutUint32 order separatorEventErrorValue) alg = Inr h \<Longrightarrow>
     isSeparatorEventError P event order ks = Inr (digest = h)"
  by (simp add: isSeparatorEventError_def range_map_Cons)

lemma checkEventData_Separator:
  "EventType event = EventTypeSeparator \<Longrightarrow>
   isSeparatorEventError P event order ks = Inr isErr \<Longrightarrow>
     checkEventData P event order ks =
       Inr (if isErr then None
            else if length (Bytes (Data event)) \<noteq> 4
              then Some (UnexpectedEventDataSize (length (Bytes (Data event))))
            else if Uint32 order (Bytes (Data event)) = 0
                      \<or> Uint32 order (Bytes (Data event)) = 0xFFFFFFFF
              then None
            else Some UnexpectedEventDataContents)"
  using Uint32_order_irrelevant [of "Bytes (Data event)" "nativeEndian P" order]
  by (auto simp: checkEventData_def Let_def)

lemma determineMeasuredBytes_Separator:
  "EventType event = EventTypeSeparator \<Longrightarrow>
   isSeparatorEventError P event order ks = Inr isErr \<Longrightarrow>
     determineMeasuredBytes P event order options ks =
       Inr (Some (case Data event of
              opaqueEventData raw \<Rightarrow>
                if isErr then PutUint32 order separatorEventErrorValue else raw
            | EFIVariableEventData raw guid name val \<Rightarrow> raw
            | EFIGPTEventData raw \<Rightarrow> raw
            | KernelCmdlineEventData raw txt \<Rightarrow> txt
            | GrubCmdEventData raw txt \<Rightarrow> txt
            | _ \<Rightarrow> PutUint32 order separatorEventErrorValue))"
  by (cases "Data event") (simp_all add: determineMeasuredBytes_def)

text \<open>
  Claim C3, as amended. For a Separator event whose first visited digest belongs to
  algorithm \<open>alg\<close>, the event is classified as an error separator exactly when that
  digest is the hash of the value 1 written in the declared byte order. An error
  separator passes the structural check whatever its payload. Its measured bytes are the
  four bytes of the value 1 in the declared byte order, unless its payload is an EFI
  variable record, an EFI GPT record, a kernel command line or a bootloader command: the
  resolver then returns that payload's own bytes (the full record, or the decoded text).
\<close>

theorem separator_error_classification:
  assumes "EventType event = EventTypeSeparator"
    and "ks = alg # rest"
    and "Digests event alg = Some digest"
    and "hash P (PutUint32 order separatorEventErrorValue) alg = Inr h"
  shows "isSeparatorEventError P event order ks = Inr (digest = h)
       \<and> (digest = h \<longrightarrow> checkEventData P event order ks = Inr None)
       \<and> (digest = h \<longrightarrow>
            determineMeasuredBytes P event order options ks =
              Inr (Some (case Data event of
                     EFIVariableEventData raw guid name val \<Rightarrow> raw
                   | EFIGPTEventData raw \<Rightarrow> raw
                   | KernelCmdlineEventData raw txt \<Rightarrow> txt
                   | GrubCmdEventData raw txt \<Rightarrow> txt
                   | _ \<Rightarrow> PutUint32 order separatorEventErrorValue)))"
proof -
  have cls: "isSeparatorEventError P event order ks = Inr (digest = h)"
    using assms by (rule isSeparatorEventError_first)
  have "checkEventData P event order ks = Inr None" if "digest = h"
    using checkEventData_Separator [OF assms(1) cls] that by simp
  moreover have "determineMeasuredBytes P event order options ks =
              Inr (Some (case Data event of
                     EFIVariableEventData raw guid name val \<Rightarrow> raw
                   | EFIGPTEventData raw \<Rightarrow> raw
                   | KernelCmdlineEventData raw txt \<Rightarrow> txt
                   | GrubCmdEventData raw txt \<Rightarrow> txt
                   | _ \<Rightarrow> PutUint32 order separatorEventErrorValue))" if "digest = h"
    using determineMeasuredBytes_Separator [OF assms(1) cls, of options] that
    by (cases "Data event") simp_all
  ultimately show ?thesis using cls by blast
qed

subsection \<open>The digest loop\<close>

lemma checkEventDigests_loop_report:
  "checkEventDigests_loop P event mb kvs report =
     (case checkEventDigests_loop P event mb kvs \<lparr>Entries = []\<rparr> of
        Inl p \<Rightarrow> Inl p
      | Inr rd \<Rightarrow> Inr (report\<lparr>Entries := Entries report @ Entries rd\<rparr>))"
proof (induction kvs arbitrary: report)
  case Nil
  then show ?case by simp
next
  case (Cons kv kvs)
  obtain alg d where kv: "kv = (alg, d)" by (cases kv)
  show ?case
  proof (cases "isExpectedDigestValue P d (EventType event) alg mb")
    case (Inl p)
    then show ?thesis by (simp add: kv)
  next
    case (Inr res)
    obtain ok expected where res: "res = (ok, expected)" by (cases res)
    let ?new = "if \<not> ok then [UnexpectedDigestValueReportEntry event alg expected] else []"
    have step: "checkEventDigests_loop P event mb (kv # kvs) r =
                  checkEventDigests_loop P event mb kvs (r\<lparr>Entries := Entries r @ ?new\<rparr>)" for r
      by (simp add: kv Inr res append_entry_alt)
    have a: "checkEventDigests_loop P event mb kvs (report\<lparr>Entries := Entries report @ ?new\<rparr>) =
               (case checkEventDigests_loop P event mb kvs \<lparr>Entries = []\<rparr> of
                  Inl p \<Rightarrow> Inl p
                | Inr rd \<Rightarrow> Inr (report\<lparr>Entries := Entries report @ ?new @ Entries rd\<rparr>))"
      by (subst Cons.IH) (simp split: sum.splits)
    have b: "checkEventDigests_loop P event mb kvs (\<lparr>Entries = []\<rparr>\<lparr>Entries := Entries \<lparr>Entries = []\<rparr> @ ?new\<rparr>) =
               (case checkEventDigests_loop P event mb kvs \<lparr>Entries = []\<rparr> of
                  Inl p \<Rightarrow> Inl p
                | Inr rd \<Rightarrow> Inr \<lparr>Entries = ?new @ Entries rd\<rparr>)"
      by (subst Cons.IH) (simp split: sum.splits)
    show ?thesis
      by (simp only: step a b) (simp split: sum.splits)
  qed
qed

lemma checkEventDigests_report:
  "checkEventDigests P event order options ks_measured ks report =
     (case checkEventDigests P event order options ks_measured ks \<lparr>Entries = []\<rparr> of
        Inl p \<Rightarrow> Inl p
      | Inr rd \<Rightarrow> Inr (report\<lparr>Entries := Entries report @ Entries rd\<rparr>))"
  unfolding checkEventDigests_def
  by (cases "determineMeasuredBytes P event order options ks_measured")
     (simp_all add: checkEventDigests_loop_report [of _ _ _ _ report])


subsection \<open>One event\<close>

lemma checkEvent_entries:
  assumes "checkEventData P event order (order_checkEventData os) = Inr res"
    and "checkEventDigests P event order options (order_determineMeasuredBytes os)
           (order_checkEventDigests os) \<lparr>Entries = []\<rparr> = Inr rd"
  shows "checkEvent P event dataErr spec order options os report =
     Inr (report\<lparr>Entries := Entries report
        @ (if \<not> isExpectedEventTypeForIndex (EventType event) (PCRIndex event) spec
           then [UnexpectedEventTypeReportEntry event] else [])
        @ (case dataErr of Some err \<Rightarrow> [InvalidEventDataReportEntry event err] | None \<Rightarrow> [])
        @ (case res of Some err \<Rightarrow> [InvalidEventDataReportEntry event err] | None \<Rightarrow> [])
        @ Entries rd\<rparr>)"
  unfolding checkEvent_def Let_def
  by (subst checkEventDigests_report)
     (simp add: assms append_entry_alt split: option.splits del: isExpectedEventTypeForIndex.simps)



subsection \<open>Absence of panics\<close>

lemma hash_known:
  "alg \<in> {AlgorithmSha1, AlgorithmSha256, AlgorithmSha384, AlgorithmSha512} \<Longrightarrow>
     \<exists>h. hash P data alg = Inr h"
  by auto

lemma isSeparatorEventError_no_panic:
  assumes "EventType event = EventTypeSeparator"
    and "dom (Digests event) \<subseteq> {AlgorithmSha1, AlgorithmSha256, AlgorithmSha384, AlgorithmSha512}"
  shows "\<exists>b. isSeparatorEventError P event order ks = Inr b"
proof (cases "range_map (Digests event) ks")
  case Nil
  then show ?thesis using assms(1) isSeparatorEventError_empty by blast
next
  case (Cons kv kvs)
  obtain alg d where kv: "kv = (alg, d)" by (cases kv)
  have "Digests event alg = Some d"
    using Cons kv range_map_keys [of alg d "Digests event" ks] by simp
  then have "alg \<in> {AlgorithmSha1, AlgorithmSha256, AlgorithmSha384, AlgorithmSha512}"
    using assms(2) by blast
  then obtain h where "hash P (PutUint32 order separatorEventErrorValue) alg = Inr h"
    using hash_known by blast
  then show ?thesis
    using assms(1) Cons kv by (simp add: isSeparatorEventError_def)
qed

lemma checkEventData_no_panic:
  assumes "dom (Digests event) \<subseteq> {AlgorithmSha1, AlgorithmSha256, AlgorithmSha384, AlgorithmSha512}"
  shows "\<exists>res. checkEventData P event order ks = Inr res"
proof (cases "EventType event = EventTypeSeparator")
  case True
  then obtain b where "isSeparatorEventError P event order ks = Inr b"
    using isSeparatorEventError_no_panic [OF _ assms] by blast
  then show ?thesis
    using checkEventData_Separator [OF True] by blast
next
  case False
  then show ?thesis
    by (cases "EventType event") (simp_all add: checkEventData_def Let_def)
qed

lemma determineMeasuredBytes_no_panic:
  assumes "dom (Digests event) \<subseteq> {AlgorithmSha1, AlgorithmSha256, AlgorithmSha384, AlgorithmSha512}"
  shows "\<exists>mb. determineMeasuredBytes P event order options ks = Inr mb"
proof (cases "EventType event = EventTypeSeparator")
  case True
  then obtain b where "isSeparatorEventError P event order ks = Inr b"
    using isSeparatorEventError_no_panic [OF _ assms] by blast
  then show ?thesis
    using determineMeasuredBytes_Separator [OF True] by blast
next
  case False
  then show ?thesis by (rule determineMeasuredBytes_not_Separator)
qed

lemma isExpectedDigestValue_no_panic:
  "alg \<in> {AlgorithmSha1, AlgorithmSha256, AlgorithmSha384, AlgorithmSha512} \<Longrightarrow>
     \<exists>res. isExpectedDigestValue P digest t alg mb = Inr res"
  by (cases mb) (auto simp: isExpectedDigestValue_def)

lemma checkEventDigests_loop_no_panic:
  "fst ` set kvs \<subseteq> {AlgorithmSha1, AlgorithmSha256, AlgorithmSha384, AlgorithmSha512} \<Longrightarrow>
     \<exists>r. checkEventDigests_loop P event mb kvs report = Inr r"
proof (induction kvs arbitrary: report)
  case Nil
  then show ?case by simp
next
  case (Cons kv kvs)
  obtain alg d where kv: "kv = (alg, d)" by (cases kv)
  from Cons.prems have "alg \<in> {AlgorithmSha1, AlgorithmSha256, AlgorithmSha384, AlgorithmSha512}"
    by (simp add: kv)
  then obtain ok expected where
    "isExpectedDigestValue P d (EventType event) alg mb = Inr (ok, expected)"
    using isExpectedDigestValue_no_panic by fastforce
  moreover have "fst ` set kvs \<subseteq> {AlgorithmSha1, AlgorithmSha256, AlgorithmSha384, AlgorithmSha512}"
    using Cons.prems by simp
  ultimately show ?case
    using Cons.IH by (simp add: kv)
qed

lemma checkEventDigests_no_panic:
  assumes "dom (Digests event) \<subseteq> {AlgorithmSha1, AlgorithmSha256, AlgorithmSha384, AlgorithmSha512}"
  shows "\<exists>r. checkEventDigests P event order options ks_measured ks report = Inr r"
proof -
  obtain mb where mb: "determineMeasuredBytes P event order options ks_measured = Inr mb"
    using determineMeasuredBytes_no_panic [OF assms] by blast
  have "fst ` set (range_map (Digests event) ks) \<subseteq> dom (Digests event)"
    using range_map_keys [of _ _ "Digests event" ks] by fastforce
  then show ?thesis
    using checkEventDigests_loop_no_panic [of "range_map (Digests event) ks"] assms
    by (auto simp: checkEventDigests_def mb)
qed

lemma checkEvent_no_panic:
  assumes "dom (Digests event) \<subseteq> {AlgorithmSha1, AlgorithmSha256, AlgorithmSha384, AlgorithmSha512}"
  shows "\<exists>r. checkEvent P event dataErr spec order options os report = Inr r"
proof -
  obtain res where "checkEventData P event order (order_checkEventData os) = Inr res"
    using checkEventData_no_panic [OF assms] by blast
  moreover obtain rd where "checkEventDigests P event order options (order_determineMeasuredBytes os)
           (order_checkEventDigests os) \<lparr>Entries = []\<rparr> = Inr rd"
    using checkEventDigests_no_panic [OF assms] by blast
  ultimately show ?thesis
    using checkEvent_entries by blast
qed


subsection \<open>The driver loop\<close>

lemma checkLog_loop_end:
  "nextEventInternal W (stream log) = ((None, err), w'') \<Longrightarrow>
     checkLog_loop P W log options report =
       Some (Inr (if err = Some EOF then (Some report, None) else (None, err)))"
  by (subst checkLog_loop.simps) simp

lemma checkLog_loop_step:
  "nextEventInternal W (stream log) = ((Some event, err), w1) \<Longrightarrow>
     checkLog_loop P W log options report =
       (case checkEvent P event err (Spec log) (byteOrder log) options
               (mapOrders W (stream log)) report of
          Inl p \<Rightarrow> Some (Inl p)
        | Inr report' \<Rightarrow> checkLog_loop P W (log\<lparr>stream := w1\<rparr>) options report')"
  by (subst checkLog_loop.simps) simp

lemma checkLog_loop_pulls:
  "pulls W (stream log) evs w' \<Longrightarrow>
     checkLog_loop P W log options report =
       (case checkEvents P (Spec log) (byteOrder log) options evs report of
          Inl p \<Rightarrow> Some (Inl p)
        | Inr report' \<Rightarrow> checkLog_loop P W (log\<lparr>stream := w'\<rparr>) options report')"
proof (induction evs arbitrary: log report)
  case Nil
  then show ?case by simp
next
  case (Cons x evs)
  obtain event err os where x: "x = (event, err, os)" by (cases x)
  from Cons.prems obtain w1 where
    nxt: "nextEventInternal W (stream log) = ((Some event, err), w1)"
    and os: "mapOrders W (stream log) = os"
    and rest: "pulls W w1 evs w'"
    by (auto simp: x split: prod.splits option.splits)
  have rest': "pulls W (stream (log\<lparr>stream := w1\<rparr>)) evs w'"
    using rest by simp
  show ?case
    by (simp add: checkLog_loop_step [OF nxt] os x Cons.IH [OF rest'] split: sum.splits)
qed

lemma run_of_end:
  "nextEventInternal W (stream log) = ((None, err), w1) \<Longrightarrow>
     run_of P W log options report
       (Inr (if err = Some EOF then (Some report, None) else (None, err)))"
  unfolding run_of_def
  by (rule exI [of _ "[]"], rule exI [of _ "stream log"]) simp

lemma run_of_panic:
  "nextEventInternal W (stream log) = ((Some event, err), w1) \<Longrightarrow>
   checkEvent P event err (Spec log) (byteOrder log) options (mapOrders W (stream log)) report
     = Inl p \<Longrightarrow>
     run_of P W log options report (Inl p)"
  unfolding run_of_def
  by (rule exI [of _ "[(event, err, mapOrders W (stream log))]"], rule exI [of _ w1]) simp

lemma run_of_step:
  assumes "nextEventInternal W (stream log) = ((Some event, err), w1)"
    and "checkEvent P event err (Spec log) (byteOrder log) options (mapOrders W (stream log)) report
     = Inr report'"
    and "run_of P W (log\<lparr>stream := w1\<rparr>) options report' y"
  shows "run_of P W log options report y"
proof -
  from assms(3) obtain evs w' where
    p: "pulls W w1 evs w'" and
    c: "(case checkEvents P (Spec log) (byteOrder log) options evs report' of
              Inl p \<Rightarrow> y = Inl p
            | Inr r \<Rightarrow> \<exists>err w''. nextEventInternal W w' = ((None, err), w'') \<and>
                  y = Inr (if err = Some EOF then (Some r, None) else (None, err)))"
    by (auto simp: run_of_def)
  show ?thesis
    unfolding run_of_def
    by (rule exI [of _ "(event, err, mapOrders W (stream log)) # evs"], rule exI [of _ w'])
       (simp add: assms(1,2) p c)
qed

lemma checkLog_loop_Some:
  assumes "checkLog_loop P W log options report = Some y"
  shows "run_of P W log options report y"
proof (rule checkLog_loop.raw_induct
    [where Pa = "\<lambda>((((P, W), log), options), report) y. run_of P W log options report y",
     simplified, OF _ assms])
  fix f :: "platform \<Rightarrow> 'w environment \<Rightarrow> 'w Log \<Rightarrow> LogCheckOptions \<Rightarrow> LogCheckReport
              \<Rightarrow> outcome option"
  fix P W log options report y
  assume IH: "\<And>P W log options report y.
                f P W log options report = Some y \<Longrightarrow> run_of P W log options report y"
  assume body: "(case nextEventInternal W (stream log) of
        ((None, err), w') \<Rightarrow>
          (if err = Some EOF then Some (Inr (Some report, None))
           else Some (Inr (None, err)))
      | ((Some event, err), w') \<Rightarrow>
          (case checkEvent P event err (Spec log) (byteOrder log) options
                  (mapOrders W (stream log)) report of
             Inl p \<Rightarrow> Some (Inl p)
           | Inr report' \<Rightarrow> f P W (log\<lparr>stream := w'\<rparr>) options report')) = Some y"
  obtain ev err w1 where nxt: "nextEventInternal W (stream log) = ((ev, err), w1)"
    by (metis prod.exhaust)
  show "run_of P W log options report y"
  proof (cases ev)
    case None
    with body nxt have "y = Inr (if err = Some EOF then (Some report, None) else (None, err))"
      by (auto split: if_splits)
    then show ?thesis using run_of_end nxt None by metis
  next
    case (Some event)
    let ?os = "mapOrders W (stream log)"
    show ?thesis
    proof (cases "checkEvent P event err (Spec log) (byteOrder log) options ?os report")
      case (Inl p)
      with body nxt Some have "y = Inl p" by simp
      then show ?thesis using run_of_panic nxt Some Inl by metis
    next
      case (Inr report')
      with body nxt Some have "f P W (log\<lparr>stream := w1\<rparr>) options report' = Some y"
        by simp
      from IH [OF this] show ?thesis
        using run_of_step nxt Some Inr by metis
    qed
  qed
qed


lemma run_of_Inl:
  assumes "run_of P W log options report (Inl p)"
  shows "\<exists>evs w'. pulls W (stream log) evs w' \<and>
           checkEvents P (Spec log) (byteOrder log) options evs report = Inl p"
proof -
  from assms obtain evs w' where p: "pulls W (stream log) evs w'"
    and c: "case checkEvents P (Spec log) (byteOrder log) options evs report of
              Inl q \<Rightarrow> (Inl p :: outcome) = Inl q
            | Inr r \<Rightarrow> \<exists>err w''. nextEventInternal W w' = ((None, err), w'') \<and>
                  (Inl p :: outcome) = Inr (if err = Some EOF then (Some r, None) else (None, err))"
    unfolding run_of_def by blast
  have "checkEvents P (Spec log) (byteOrder log) options evs report = Inl p"
  proof (cases "checkEvents P (Spec log) (byteOrder log) options evs report")
    case (Inl q)
    with c show ?thesis by simp
  next
    case (Inr r)
    with c show ?thesis by simp
  qed
  with p show ?thesis by blast
qed

lemma run_of_success:
  assumes "run_of P W log options report (Inr (Some r, None))"
  shows "\<exists>evs w' w''. pulls W (stream log) evs w'
          \<and> nextEventInternal W w' = ((None, Some EOF), w'')
          \<and> checkEvents P (Spec log) (byteOrder log) options evs report = Inr r"
proof -
  from assms obtain evs w' where p: "pulls W (stream log) evs w'"
    and c: "case checkEvents P (Spec log) (byteOrder log) options evs report of
              Inl q \<Rightarrow> (Inr (Some r, None) :: outcome) = Inl q
            | Inr r' \<Rightarrow> \<exists>err w''. nextEventInternal W w' = ((None, err), w'') \<and>
                  (Inr (Some r, None) :: outcome)
                     = Inr (if err = Some EOF then (Some r', None) else (None, err))"
    unfolding run_of_def by blast
  show ?thesis
  proof (cases "checkEvents P (Spec log) (byteOrder log) options evs report")
    case (Inl q)
    with c show ?thesis by simp
  next
    case (Inr r')
    with c obtain err w'' where n: "nextEventInternal W w' = ((None, err), w'')"
      and eq: "(Inr (Some r, None) :: outcome)
                     = Inr (if err = Some EOF then (Some r', None) else (None, err))"
      by auto
    from eq have "err = Some EOF \<and> r' = r"
      by (cases "err = Some EOF") simp_all
    with n Inr p show ?thesis by blast
  qed
qed

lemma checkEvents_no_panic:
  "\<forall>event err os. (event, err, os) \<in> set evs \<longrightarrow>
      dom (Digests event) \<subseteq> {AlgorithmSha1, AlgorithmSha256, AlgorithmSha384, AlgorithmSha512}
   \<Longrightarrow> \<exists>r. checkEvents P spec order options evs report = Inr r"
proof (induction evs arbitrary: report)
  case Nil
  then show ?case by simp
next
  case (Cons x evs)
  obtain event err os where x: "x = (event, err, os)" by (cases x)
  from Cons.prems have "dom (Digests event) \<subseteq> {AlgorithmSha1, AlgorithmSha256, AlgorithmSha384, AlgorithmSha512}"
    by (simp add: x)
  then obtain r1 where "checkEvent P event err spec order options os report = Inr r1"
    using checkEvent_no_panic by blast
  moreover from Cons.prems have "\<forall>event err os. (event, err, os) \<in> set evs \<longrightarrow>
      dom (Digests event) \<subseteq> {AlgorithmSha1, AlgorithmSha256, AlgorithmSha384, AlgorithmSha512}"
    by auto
  ultimately show ?case
    using Cons.IH by (simp add: x)
qed

text \<open>
  Claim C8. When every event that the driver pulls from the stream has digests for the
  algorithms SHA1, SHA256, SHA384 and SHA512 only, the driver never ends in a panic and
  the checks of the pulled events return a report. The checks of any event with digests
  for these algorithms only return a report, and the separator detector, which the checks
  call for Separator events only, returns a classification.
\<close>

theorem validation_never_panics:
  assumes "\<forall>evs w'. pulls W (stream log) evs w' \<longrightarrow>
             (\<forall>event err os. (event, err, os) \<in> set evs \<longrightarrow>
                dom (Digests event)
                  \<subseteq> {AlgorithmSha1, AlgorithmSha256, AlgorithmSha384, AlgorithmSha512})"
  shows "(\<forall>p. checkLog P W log options \<noteq> Some (Inl p))
       \<and> (\<forall>evs w'. pulls W (stream log) evs w' \<longrightarrow>
            (\<exists>r. checkEvents P (Spec log) (byteOrder log) options evs \<lparr>Entries = []\<rparr> = Inr r))
       \<and> (\<forall>event err spec order os report.
            dom (Digests event)
              \<subseteq> {AlgorithmSha1, AlgorithmSha256, AlgorithmSha384, AlgorithmSha512} \<longrightarrow>
              (\<exists>r. checkEvent P event err spec order options os report = Inr r)
              \<and> (EventType event = EventTypeSeparator \<longrightarrow>
                   (\<exists>b. isSeparatorEventError P event order (order_checkEventData os) = Inr b)
                 \<and> (\<exists>b. isSeparatorEventError P event order (order_determineMeasuredBytes os)
                          = Inr b)))"
proof -
  have runs: "\<exists>r. checkEvents P (Spec log) (byteOrder log) options evs \<lparr>Entries = []\<rparr> = Inr r"
    if "pulls W (stream log) evs w'" for evs w'
  proof (rule checkEvents_no_panic)
    show "\<forall>event err os. (event, err, os) \<in> set evs \<longrightarrow>
      dom (Digests event) \<subseteq> {AlgorithmSha1, AlgorithmSha256, AlgorithmSha384, AlgorithmSha512}"
      using assms that by blast
  qed
  have "checkLog P W log options \<noteq> Some (Inl p)" for p
  proof
    assume "checkLog P W log options = Some (Inl p)"
    then have "run_of P W log options \<lparr>Entries = []\<rparr> (Inl p)"
      unfolding checkLog_def by (rule checkLog_loop_Some)
    then obtain evs w' where p: "pulls W (stream log) evs w'"
      and c: "checkEvents P (Spec log) (byteOrder log) options evs \<lparr>Entries = []\<rparr> = Inl p"
      using run_of_Inl by blast
    from runs [OF p] c show False
      by (metis sum.distinct(1))
  qed
  moreover have "(\<exists>r. checkEvent P event err spec order options os report = Inr r)
              \<and> (EventType event = EventTypeSeparator \<longrightarrow>
                   (\<exists>b. isSeparatorEventError P event order (order_checkEventData os) = Inr b)
                 \<and> (\<exists>b. isSeparatorEventError P event order (order_determineMeasuredBytes os)
                          = Inr b))"
    if "dom (Digests event)
              \<subseteq> {AlgorithmSha1, AlgorithmSha256, AlgorithmSha384, AlgorithmSha512}"
    for event err spec order os report
    using that checkEvent_no_panic isSeparatorEventError_no_panic by blast
  ultimately show ?thesis using runs by blast
qed

text \<open>
  Claim C6. The driver returns a report and no error exactly when the stream, after
  finitely many events whose checks raise no panic, yields no event with the clean end of
  stream; the report is the one accumulated over these events. When the stream instead
  yields no event with another error, the driver returns that error and no report. When
  the stream yields an event together with a decode error, the loop goes on from the next
  stream state with the report extended by the placement entry if any, the
  InvalidEventData entry carrying the decode error, the entry of the structural check if
  any, and the entries of the digest check.
\<close>

theorem driver_loop_outcomes:
  "((checkLog P W log options = Some (Inr (Some r, None))) =
      (\<exists>evs w' w''. pulls W (stream log) evs w'
          \<and> nextEventInternal W w' = ((None, Some EOF), w'')
          \<and> checkEvents P (Spec log) (byteOrder log) options evs \<lparr>Entries = []\<rparr> = Inr r))
   \<and> (pulls W (stream log) evs w'
        \<and> checkEvents P (Spec log) (byteOrder log) options evs \<lparr>Entries = []\<rparr> = Inr r'
        \<and> nextEventInternal W w' = ((None, Some err), w'') \<and> err \<noteq> EOF
      \<longrightarrow> checkLog P W log options = Some (Inr (None, Some err)))
   \<and> (nextEventInternal W (stream log) = ((Some event, Some derr), w1)
        \<and> checkEventData P event (byteOrder log)
              (order_checkEventData (mapOrders W (stream log))) = Inr res
        \<and> checkEventDigests P event (byteOrder log) options
              (order_determineMeasuredBytes (mapOrders W (stream log)))
              (order_checkEventDigests (mapOrders W (stream log))) \<lparr>Entries = []\<rparr> = Inr rd
      \<longrightarrow> checkLog_loop P W log options report =
            checkLog_loop P W (log\<lparr>stream := w1\<rparr>) options
              (report\<lparr>Entries := Entries report
                 @ (if \<not> isExpectedEventTypeForIndex (EventType event) (PCRIndex event) (Spec log)
                    then [UnexpectedEventTypeReportEntry event] else [])
                 @ [InvalidEventDataReportEntry event derr]
                 @ (case res of Some e \<Rightarrow> [InvalidEventDataReportEntry event e] | None \<Rightarrow> [])
                 @ Entries rd\<rparr>))"
proof (intro conjI impI)
  show "(checkLog P W log options = Some (Inr (Some r, None))) =
      (\<exists>evs w' w''. pulls W (stream log) evs w'
          \<and> nextEventInternal W w' = ((None, Some EOF), w'')
          \<and> checkEvents P (Spec log) (byteOrder log) options evs \<lparr>Entries = []\<rparr> = Inr r)"
  proof
    assume "checkLog P W log options = Some (Inr (Some r, None))"
    then have "run_of P W log options \<lparr>Entries = []\<rparr> (Inr (Some r, None))"
      unfolding checkLog_def by (rule checkLog_loop_Some)
    then show "\<exists>evs w' w''. pulls W (stream log) evs w'
          \<and> nextEventInternal W w' = ((None, Some EOF), w'')
          \<and> checkEvents P (Spec log) (byteOrder log) options evs \<lparr>Entries = []\<rparr> = Inr r"
      by (rule run_of_success)
  next
    assume "\<exists>evs w' w''. pulls W (stream log) evs w'
          \<and> nextEventInternal W w' = ((None, Some EOF), w'')
          \<and> checkEvents P (Spec log) (byteOrder log) options evs \<lparr>Entries = []\<rparr> = Inr r"
    then obtain evs w' w'' where p: "pulls W (stream log) evs w'"
      and e: "nextEventInternal W w' = ((None, Some EOF), w'')"
      and c: "checkEvents P (Spec log) (byteOrder log) options evs \<lparr>Entries = []\<rparr> = Inr r"
      by blast
    have e': "nextEventInternal W (stream (log\<lparr>stream := w'\<rparr>)) = ((None, Some EOF), w'')"
      using e by simp
    show "checkLog P W log options = Some (Inr (Some r, None))"
      unfolding checkLog_def
      by (simp add: checkLog_loop_pulls [OF p] c checkLog_loop_end [OF e'])
  qed
next
  assume a: "pulls W (stream log) evs w'
        \<and> checkEvents P (Spec log) (byteOrder log) options evs \<lparr>Entries = []\<rparr> = Inr r'
        \<and> nextEventInternal W w' = ((None, Some err), w'') \<and> err \<noteq> EOF"
  then have e': "nextEventInternal W (stream (log\<lparr>stream := w'\<rparr>)) = ((None, Some err), w'')"
    by simp
  show "checkLog P W log options = Some (Inr (None, Some err))"
    unfolding checkLog_def
    using a by (simp add: checkLog_loop_pulls [of W log evs w'] checkLog_loop_end [OF e'])
next
  assume a: "nextEventInternal W (stream log) = ((Some event, Some derr), w1)
        \<and> checkEventData P event (byteOrder log)
              (order_checkEventData (mapOrders W (stream log))) = Inr res
        \<and> checkEventDigests P event (byteOrder log) options
              (order_determineMeasuredBytes (mapOrders W (stream log)))
              (order_checkEventDigests (mapOrders W (stream log))) \<lparr>Entries = []\<rparr> = Inr rd"
  then have nxt: "nextEventInternal W (stream log) = ((Some event, Some derr), w1)"
    and cd: "checkEventData P event (byteOrder log)
              (order_checkEventData (mapOrders W (stream log))) = Inr res"
    and dg: "checkEventDigests P event (byteOrder log) options
              (order_determineMeasuredBytes (mapOrders W (stream log)))
              (order_checkEventDigests (mapOrders W (stream log))) \<lparr>Entries = []\<rparr> = Inr rd"
    by blast+
  show "checkLog_loop P W log options report =
            checkLog_loop P W (log\<lparr>stream := w1\<rparr>) options
              (report\<lparr>Entries := Entries report
                 @ (if \<not> isExpectedEventTypeForIndex (EventType event) (PCRIndex event) (Spec log)
                    then [UnexpectedEventTypeReportEntry event] else [])
                 @ [InvalidEventDataReportEntry event derr]
                 @ (case res of Some e \<Rightarrow> [InvalidEventDataReportEntry event e] | None \<Rightarrow> [])
                 @ Entries rd\<rparr>)"
    by (simp add: checkLog_loop_step [OF nxt] checkEvent_entries [OF cd dg]
          del: isExpectedEventTypeForIndex.simps)
qed


subsection \<open>Structural checks, resolver rules and determinism\<close>


lemma isExpectedDigestValue_hash:
  "t \<noteq> EventTypeNoAction \<Longrightarrow> hash P mb alg = Inr h \<Longrightarrow>
     isExpectedDigestValue P digest t alg (Some mb) = Inr (digest = h, Some h)"
  by (simp add: isExpectedDigestValue_def)

lemma checkEventDigests_loop_hash:
  assumes "EventType event \<noteq> EventTypeNoAction"
    and "\<forall>(alg, d) \<in> set kvs. hash P mb alg = Inr (H alg)"
  shows "checkEventDigests_loop P event (Some mb) kvs report =
     Inr (report\<lparr>Entries := Entries report @
            map (\<lambda>(alg, d). UnexpectedDigestValueReportEntry event alg (Some (H alg)))
              (filter (\<lambda>(alg, d). d \<noteq> H alg) kvs)\<rparr>)"
  using assms(2)
proof (induction kvs arbitrary: report)
  case Nil
  then show ?case by simp
next
  case (Cons kv kvs)
  obtain alg d where kv: "kv = (alg, d)" by (cases kv)
  from Cons.prems have h: "hash P mb alg = Inr (H alg)"
    and rest: "\<forall>(alg, d) \<in> set kvs. hash P mb alg = Inr (H alg)"
    by (simp_all add: kv)
  show ?case
    using assms(1)
    by (simp add: kv isExpectedDigestValue_hash [OF assms(1) h] Cons.IH [OF rest]
          append_entry_alt)
qed

lemma checkEventDigests_hash:
  assumes "determineMeasuredBytes P event order options ks_measured = Inr (Some mb)"
    and "EventType event \<noteq> EventTypeNoAction"
    and "range_order (Digests event) ks"
    and "\<forall>alg \<in> dom (Digests event). hash P mb alg = Inr (H alg)"
  shows "checkEventDigests P event order options ks_measured ks report =
     Inr (report\<lparr>Entries := Entries report @
            map (\<lambda>alg. UnexpectedDigestValueReportEntry event alg (Some (H alg)))
              (filter (\<lambda>alg. Digests event alg \<noteq> Some (H alg)) ks)\<rparr>)"
proof -
  let ?kvs = "map (\<lambda>k. (k, the (Digests event k))) ks"
  have sub: "set ks \<subseteq> dom (Digests event)"
    using assms(3) by (simp add: range_order_def)
  have kvs: "range_map (Digests event) ks = ?kvs"
    using sub by (rule range_map_dom)
  have known: "\<forall>(alg, d) \<in> set ?kvs. hash P mb alg = Inr (H alg)"
    using sub assms(4) by auto
  have filt: "filter (\<lambda>(alg, d). d \<noteq> H alg) ?kvs
              = map (\<lambda>k. (k, the (Digests event k)))
                  (filter (\<lambda>alg. Digests event alg \<noteq> Some (H alg)) ks)"
    using sub by (induction ks) auto
  have pairs: "map (\<lambda>(alg, d). UnexpectedDigestValueReportEntry event alg (Some (H alg)))
                 (filter (\<lambda>(alg, d). d \<noteq> H alg) ?kvs)
               = map (\<lambda>alg. UnexpectedDigestValueReportEntry event alg (Some (H alg)))
                   (filter (\<lambda>alg. Digests event alg \<noteq> Some (H alg)) ks)"
    by (simp only: filt) (simp add: comp_def)
  have "checkEventDigests P event order options ks_measured ks report =
          checkEventDigests_loop P event (Some mb) ?kvs report"
    by (simp add: checkEventDigests_def assms(1) kvs)
  also have "\<dots> = Inr (report\<lparr>Entries := Entries report @
            map (\<lambda>alg. UnexpectedDigestValueReportEntry event alg (Some (H alg)))
              (filter (\<lambda>alg. Digests event alg \<noteq> Some (H alg)) ks)\<rparr>)"
    by (simp only: checkEventDigests_loop_hash [OF assms(2) known] pairs)
  finally show ?thesis .
qed

text \<open>
  Claim C5, as amended. For an event with an EFI variable record payload, the measured
  bytes are the value field when the event type is EFIVariableBoot and the quirk option is
  off, and the full encoded record in every other case. For every event type but NoAction
  the digest check expects, for each algorithm of the mapping, the hash of these bytes: it
  appends one UnexpectedDigestValue entry carrying that hash for each algorithm whose
  recorded digest differs from it, and no other entry. For an EFIVariableBoot event the
  two settings of the option resolve to the value field and to the full record; where the
  hashes of the two differ, digests that are the hashes of the value field pass with the
  option off, and with the option on each is reported with the hash of the record as the
  expected digest.
\<close>

theorem efi_variable_measured_bytes:
  assumes "Data event = EFIVariableEventData raw guid name val"
  shows "determineMeasuredBytes P event order options ks_measured =
           Inr (Some (if EventType event = EventTypeEFIVariableBoot
                           \<and> \<not> EfiVariableBootQuirk options then val else raw))
       \<and> (EventType event \<noteq> EventTypeNoAction \<and> range_order (Digests event) ks
            \<and> (\<forall>alg \<in> dom (Digests event).
                  hash P (if EventType event = EventTypeEFIVariableBoot
                             \<and> \<not> EfiVariableBootQuirk options then val else raw) alg
                    = Inr (H alg))
          \<longrightarrow> checkEventDigests P event order options ks_measured ks report =
                Inr (report\<lparr>Entries := Entries report @
                  map (\<lambda>alg. UnexpectedDigestValueReportEntry event alg (Some (H alg)))
                    (filter (\<lambda>alg. Digests event alg \<noteq> Some (H alg)) ks)\<rparr>))
       \<and> (EventType event = EventTypeEFIVariableBoot \<and> range_order (Digests event) ks
            \<and> (\<forall>alg \<in> dom (Digests event).
                  hash P val alg = Inr (Hv alg) \<and> hash P raw alg = Inr (Hr alg)
                    \<and> Hv alg \<noteq> Hr alg)
          \<longrightarrow> determineMeasuredBytes P event order
                  (options\<lparr>EfiVariableBootQuirk := False\<rparr>) ks_measured = Inr (Some val)
              \<and> determineMeasuredBytes P event order
                  (options\<lparr>EfiVariableBootQuirk := True\<rparr>) ks_measured = Inr (Some raw)
              \<and> checkEventDigests P event order (options\<lparr>EfiVariableBootQuirk := False\<rparr>)
                  ks_measured ks report =
                Inr (report\<lparr>Entries := Entries report @
                  map (\<lambda>alg. UnexpectedDigestValueReportEntry event alg (Some (Hv alg)))
                    (filter (\<lambda>alg. Digests event alg \<noteq> Some (Hv alg)) ks)\<rparr>)
              \<and> checkEventDigests P event order (options\<lparr>EfiVariableBootQuirk := True\<rparr>)
                  ks_measured ks report =
                Inr (report\<lparr>Entries := Entries report @
                  map (\<lambda>alg. UnexpectedDigestValueReportEntry event alg (Some (Hr alg)))
                    (filter (\<lambda>alg. Digests event alg \<noteq> Some (Hr alg)) ks)\<rparr>)
              \<and> ((\<forall>alg \<in> dom (Digests event). Digests event alg = Some (Hv alg)) \<longrightarrow>
                   checkEventDigests P event order (options\<lparr>EfiVariableBootQuirk := False\<rparr>)
                     ks_measured ks report = Inr report
                 \<and> checkEventDigests P event order (options\<lparr>EfiVariableBootQuirk := True\<rparr>)
                     ks_measured ks report =
                   Inr (report\<lparr>Entries := Entries report @
                     map (\<lambda>alg. UnexpectedDigestValueReportEntry event alg (Some (Hr alg)))
                       ks\<rparr>)))"
proof (intro conjI impI)
  have mb: "determineMeasuredBytes P event order opts ks_measured =
           Inr (Some (if EventType event = EventTypeEFIVariableBoot
                           \<and> \<not> EfiVariableBootQuirk opts then val else raw))" for opts
    by (simp add: determineMeasuredBytes_def assms)
  show "determineMeasuredBytes P event order options ks_measured =
           Inr (Some (if EventType event = EventTypeEFIVariableBoot
                           \<and> \<not> EfiVariableBootQuirk options then val else raw))"
    by (rule mb)
  {
    assume a: "EventType event \<noteq> EventTypeNoAction \<and> range_order (Digests event) ks
            \<and> (\<forall>alg \<in> dom (Digests event).
                  hash P (if EventType event = EventTypeEFIVariableBoot
                             \<and> \<not> EfiVariableBootQuirk options then val else raw) alg
                    = Inr (H alg))"
    show "checkEventDigests P event order options ks_measured ks report =
                Inr (report\<lparr>Entries := Entries report @
                  map (\<lambda>alg. UnexpectedDigestValueReportEntry event alg (Some (H alg)))
                    (filter (\<lambda>alg. Digests event alg \<noteq> Some (H alg)) ks)\<rparr>)"
      using a by (intro checkEventDigests_hash [OF mb]) blast+
  }
  assume b: "EventType event = EventTypeEFIVariableBoot \<and> range_order (Digests event) ks
            \<and> (\<forall>alg \<in> dom (Digests event).
                  hash P val alg = Inr (Hv alg) \<and> hash P raw alg = Inr (Hr alg)
                    \<and> Hv alg \<noteq> Hr alg)"
  then have t: "EventType event = EventTypeEFIVariableBoot"
    and na: "EventType event \<noteq> EventTypeNoAction"
    and ro: "range_order (Digests event) ks"
    and hv: "\<forall>alg \<in> dom (Digests event). hash P val alg = Inr (Hv alg)"
    and hr: "\<forall>alg \<in> dom (Digests event). hash P raw alg = Inr (Hr alg)"
    and ne: "\<forall>alg \<in> dom (Digests event). Hv alg \<noteq> Hr alg"
    by auto
  show off: "determineMeasuredBytes P event order
                  (options\<lparr>EfiVariableBootQuirk := False\<rparr>) ks_measured = Inr (Some val)"
    by (simp add: mb t)
  show on: "determineMeasuredBytes P event order
                  (options\<lparr>EfiVariableBootQuirk := True\<rparr>) ks_measured = Inr (Some raw)"
    by (simp add: mb)
  show coff: "checkEventDigests P event order (options\<lparr>EfiVariableBootQuirk := False\<rparr>)
                  ks_measured ks report =
                Inr (report\<lparr>Entries := Entries report @
                  map (\<lambda>alg. UnexpectedDigestValueReportEntry event alg (Some (Hv alg)))
                    (filter (\<lambda>alg. Digests event alg \<noteq> Some (Hv alg)) ks)\<rparr>)"
    by (rule checkEventDigests_hash [OF off na ro hv])
  show con: "checkEventDigests P event order (options\<lparr>EfiVariableBootQuirk := True\<rparr>)
                  ks_measured ks report =
                Inr (report\<lparr>Entries := Entries report @
                  map (\<lambda>alg. UnexpectedDigestValueReportEntry event alg (Some (Hr alg)))
                    (filter (\<lambda>alg. Digests event alg \<noteq> Some (Hr alg)) ks)\<rparr>)"
    by (rule checkEventDigests_hash [OF on na ro hr])
  assume m: "\<forall>alg \<in> dom (Digests event). Digests event alg = Some (Hv alg)"
  have sub: "set ks \<subseteq> dom (Digests event)"
    using ro by (simp add: range_order_def)
  have f1: "filter (\<lambda>alg. Digests event alg \<noteq> Some (Hv alg)) ks = []"
    using sub m by (induction ks) auto
  have f2: "filter (\<lambda>alg. Digests event alg \<noteq> Some (Hr alg)) ks = ks"
    using sub m ne by (induction ks) auto
  show "checkEventDigests P event order (options\<lparr>EfiVariableBootQuirk := False\<rparr>)
                     ks_measured ks report = Inr report"
    by (simp add: coff f1)
  show "checkEventDigests P event order (options\<lparr>EfiVariableBootQuirk := True\<rparr>)
                     ks_measured ks report =
                   Inr (report\<lparr>Entries := Entries report @
                     map (\<lambda>alg. UnexpectedDigestValueReportEntry event alg (Some (Hr alg)))
                       ks\<rparr>)"
    by (simp only: con f2)
qed

text \<open>
  Claim C9, as amended. For an event whose payload is a kernel command line or a
  bootloader command, the measured bytes are the decoded text, whatever the options; for
  every event type but NoAction the expected digest of an algorithm is the hash of that
  text. The resolver does not read the \<open>EnableGrub\<close> option: the entry point only
  hands it to the log decoder.
\<close>

theorem bootloader_text_measured_bytes:
  assumes "Data event = KernelCmdlineEventData raw txt \<or> Data event = GrubCmdEventData raw txt"
  shows "determineMeasuredBytes P event order options ks = Inr (Some txt)
       \<and> (\<forall>alg h digest. EventType event \<noteq> EventTypeNoAction \<and> hash P txt alg = Inr h
            \<longrightarrow> isExpectedDigestValue P digest (EventType event) alg (Some txt)
                  = Inr (digest = h, Some h))
       \<and> CheckLogFromByteReader P W newLog reader options =
           (case newLog reader (EnableGrub options) of
              Inl err \<Rightarrow> Some (Inr (None, Some err))
            | Inr log \<Rightarrow> checkLog P W log options)"
  using assms
  by (auto simp: determineMeasuredBytes_def isExpectedDigestValue_hash CheckLogFromByteReader_def)

text \<open>
  Claim C10. For an event with an empty digest mapping the digest check leaves the
  report as it was; a Separator event with an empty digest mapping is classified as a
  normal separator, and the structural check of its payload is the check of the size and
  of the two permitted values.
\<close>

theorem empty_digest_mapping:
  assumes "Digests event = Map.empty"
  shows "checkEventDigests P event order options ks_measured ks report = Inr report
       \<and> (EventType event = EventTypeSeparator \<longrightarrow>
            isSeparatorEventError P event order ks' = Inr False
          \<and> checkEventData P event order ks' =
              Inr (if length (Bytes (Data event)) \<noteq> 4
                     then Some (UnexpectedEventDataSize (length (Bytes (Data event))))
                   else if Uint32 order (Bytes (Data event)) = 0
                             \<or> Uint32 order (Bytes (Data event)) = 0xFFFFFFFF
                     then None
                   else Some UnexpectedEventDataContents))"
proof -
  have nil: "range_map (Digests event) xs = []" for xs
    by (induction xs) (simp_all add: range_map_Cons assms)
  have "dom (Digests event) \<subseteq> {AlgorithmSha1, AlgorithmSha256, AlgorithmSha384, AlgorithmSha512}"
    by (simp add: assms)
  then obtain mb where "determineMeasuredBytes P event order options ks_measured = Inr mb"
    using determineMeasuredBytes_no_panic by blast
  then have first: "checkEventDigests P event order options ks_measured ks report = Inr report"
    by (simp add: checkEventDigests_def nil)
  have "isSeparatorEventError P event order ks' = Inr False
          \<and> checkEventData P event order ks' =
              Inr (if length (Bytes (Data event)) \<noteq> 4
                     then Some (UnexpectedEventDataSize (length (Bytes (Data event))))
                   else if Uint32 order (Bytes (Data event)) = 0
                             \<or> Uint32 order (Bytes (Data event)) = 0xFFFFFFFF
                     then None
                   else Some UnexpectedEventDataContents)"
    if sep: "EventType event = EventTypeSeparator"
  proof -
    have cls: "isSeparatorEventError P event order ks' = Inr False"
      using sep nil by (rule isSeparatorEventError_empty)
    show ?thesis
      using checkEventData_Separator [OF sep cls] cls by simp
  qed
  with first show ?thesis by blast
qed
















section \<open>The properties on the sample inputs\<close>

text \<open>
  Claim C2 on a NoAction event with an all-zero SHA1 digest and a SHA256 digest that is
  not all-zero.
\<close>

theorem noaction_digests_witness:
  "EventType sample_noaction = EventTypeNoAction
   \<and> range_order (Digests sample_noaction) [AlgorithmSha1, AlgorithmSha256]
   \<and> checkEventDigests sample_platform sample_noaction LittleEndian sample_options
        [AlgorithmSha1, AlgorithmSha256] [AlgorithmSha1, AlgorithmSha256] \<lparr>Entries = []\<rparr>
      = Inr \<lparr>Entries = [UnexpectedDigestValueReportEntry sample_noaction AlgorithmSha256
                           (Some (replicate 32 0))]\<rparr>"
proof -
  have h1: "EventType sample_noaction = EventTypeNoAction"
    by (simp add: sample_noaction_def)
  have h2: "range_order (Digests sample_noaction) [AlgorithmSha1, AlgorithmSha256]"
    by (auto simp: sample_noaction_def range_order_def)
  have ne: "[1 :: byte] \<noteq> replicate 32 0"
    by (simp add: numeral_eq_Suc)
  have d: "Digests sample_noaction AlgorithmSha1 = Some (replicate 20 0)"
    "Digests sample_noaction AlgorithmSha256 = Some [1]"
    by (simp_all add: sample_noaction_def)
  show ?thesis
    using h1 h2 ne
      noaction_digests [OF h1 h2, of sample_platform LittleEndian sample_options
        "[AlgorithmSha1, AlgorithmSha256]" "\<lparr>Entries = []\<rparr>"]
    by (simp add: d)
qed

text \<open>
  Claim C1 on four entries of the table.
\<close>

theorem placement_matrix_witness:
  "isExpectedEventTypeForIndex EventTypeIPL 4 SpecPCClient
   \<and> \<not> isExpectedEventTypeForIndex EventTypeIPL 4 (Suc SpecPCClient)
   \<and> \<not> isExpectedEventTypeForIndex EventTypeEFIVariableDriverConfig 2 SpecPCClient
   \<and> isExpectedEventTypeForIndex EventTypeEFIVariableDriverConfig 8 SpecPCClient"
  using placement_matrix [of EventTypeIPL 4 SpecPCClient]
    placement_matrix [of EventTypeIPL 4 "Suc SpecPCClient"]
    placement_matrix [of EventTypeEFIVariableDriverConfig 2 SpecPCClient]
    placement_matrix [of EventTypeEFIVariableDriverConfig 8 SpecPCClient]
  by simp


text \<open>
  Claim C3, as amended, on an error separator with an opaque payload of two bytes.
\<close>

theorem separator_error_classification_witness:
  "EventType sample_error_separator = EventTypeSeparator
   \<and> Digests sample_error_separator AlgorithmSha1 = Some [1, 1, 0, 0, 0]
   \<and> hash sample_platform (PutUint32 LittleEndian separatorEventErrorValue) AlgorithmSha1
        = Inr [1, 1, 0, 0, 0]
   \<and> isSeparatorEventError sample_platform sample_error_separator LittleEndian [AlgorithmSha1]
        = Inr True
   \<and> checkEventData sample_platform sample_error_separator LittleEndian [AlgorithmSha1]
        = Inr None
   \<and> determineMeasuredBytes sample_platform sample_error_separator LittleEndian sample_options
        [AlgorithmSha1] = Inr (Some [1, 0, 0, 0])"
proof -
  have h1: "EventType sample_error_separator = EventTypeSeparator"
    by (simp add: sample_error_separator_def)
  have h2: "[AlgorithmSha1] = AlgorithmSha1 # []" by simp
  have h3: "Digests sample_error_separator AlgorithmSha1 = Some [1, 1, 0, 0, 0]"
    by (simp add: sample_error_separator_def)
  have h4: "hash sample_platform (PutUint32 LittleEndian separatorEventErrorValue) AlgorithmSha1
        = Inr [1, 1, 0, 0, 0]"
    by (simp add: sample_platform_def separatorEventErrorValue_def)
  have d: "Data sample_error_separator = opaqueEventData [9, 9]"
    by (simp add: sample_error_separator_def)
  show ?thesis
    using h1 h3 h4 separator_error_classification [OF h1 h2 h3 h4, of sample_options]
    by (simp add: d separatorEventErrorValue_def)
qed

text \<open>
  Claim C3 as first stated fails on an error separator whose payload is an EFI GPT
  record: the event is classified as an error separator and passes the structural check,
  but its measured bytes are the record, not the four bytes of the value 1.
\<close>

theorem separator_error_measured_bytes_counterexample:
  "isSeparatorEventError sample_platform sample_gpt_separator LittleEndian [AlgorithmSha1]
     = Inr True
   \<and> checkEventData sample_platform sample_gpt_separator LittleEndian [AlgorithmSha1] = Inr None
   \<and> determineMeasuredBytes sample_platform sample_gpt_separator LittleEndian sample_options
        [AlgorithmSha1] = Inr (Some [7, 7, 7, 7])
   \<and> determineMeasuredBytes sample_platform sample_gpt_separator LittleEndian sample_options
        [AlgorithmSha1] \<noteq> Inr (Some (PutUint32 LittleEndian separatorEventErrorValue))"
  by (simp add: isSeparatorEventError_def checkEventData_def determineMeasuredBytes_def
        range_map_Cons sample_gpt_separator_def sample_platform_def separatorEventErrorValue_def)



text \<open>
  Claim C5, as amended, on an EFIVariableBoot event whose digest is the hash of the
  value field.
\<close>

theorem efi_variable_measured_bytes_witness:
  "Data sample_efi_boot = EFIVariableEventData [1, 2, 3, 4, 5] [6] ''BootOrder'' [4, 5]
   \<and> EventType sample_efi_boot = EventTypeEFIVariableBoot
   \<and> range_order (Digests sample_efi_boot) [AlgorithmSha256]
   \<and> Digests sample_efi_boot AlgorithmSha256 = Some [2, 4, 5]
   \<and> hash sample_platform [4, 5] AlgorithmSha256 = Inr [2, 4, 5]
   \<and> hash sample_platform [1, 2, 3, 4, 5] AlgorithmSha256 = Inr [2, 1, 2, 3, 4, 5]
   \<and> determineMeasuredBytes sample_platform sample_efi_boot LittleEndian
        (sample_options\<lparr>EfiVariableBootQuirk := False\<rparr>) [AlgorithmSha256] = Inr (Some [4, 5])
   \<and> determineMeasuredBytes sample_platform sample_efi_boot LittleEndian
        (sample_options\<lparr>EfiVariableBootQuirk := True\<rparr>) [AlgorithmSha256]
        = Inr (Some [1, 2, 3, 4, 5])
   \<and> checkEventDigests sample_platform sample_efi_boot LittleEndian sample_options
        [AlgorithmSha256] [AlgorithmSha256] \<lparr>Entries = []\<rparr> = Inr \<lparr>Entries = []\<rparr>
   \<and> checkEventDigests sample_platform sample_efi_boot LittleEndian
        (sample_options\<lparr>EfiVariableBootQuirk := False\<rparr>)
        [AlgorithmSha256] [AlgorithmSha256] \<lparr>Entries = []\<rparr> = Inr \<lparr>Entries = []\<rparr>
   \<and> checkEventDigests sample_platform sample_efi_boot LittleEndian
        (sample_options\<lparr>EfiVariableBootQuirk := True\<rparr>)
        [AlgorithmSha256] [AlgorithmSha256] \<lparr>Entries = []\<rparr>
      = Inr \<lparr>Entries = [UnexpectedDigestValueReportEntry sample_efi_boot AlgorithmSha256
                           (Some [2, 1, 2, 3, 4, 5])]\<rparr>"
proof -
  have h1: "Data sample_efi_boot = EFIVariableEventData [1, 2, 3, 4, 5] [6] ''BootOrder'' [4, 5]"
    by (simp add: sample_efi_boot_def)
  have t: "EventType sample_efi_boot = EventTypeEFIVariableBoot"
    by (simp add: sample_efi_boot_def)
  have dm: "dom (Digests sample_efi_boot) = {AlgorithmSha256}"
    and dg: "Digests sample_efi_boot AlgorithmSha256 = Some [2, 4, 5]"
    by (simp_all add: sample_efi_boot_def)
  have ro: "range_order (Digests sample_efi_boot) [AlgorithmSha256]"
    by (simp add: range_order_def dm)
  have hv: "hash sample_platform [4, 5] AlgorithmSha256 = Inr [2, 4, 5]"
    and hr: "hash sample_platform [1, 2, 3, 4, 5] AlgorithmSha256 = Inr [2, 1, 2, 3, 4, 5]"
    by (simp_all add: sample_platform_def)
  have q: "\<not> EfiVariableBootQuirk sample_options"
    by (simp add: sample_options_def)
  note inst = efi_variable_measured_bytes [OF h1, where P = sample_platform
      and order = LittleEndian and options = sample_options
      and ks_measured = "[AlgorithmSha256]" and ks = "[AlgorithmSha256]"
      and report = "\<lparr>Entries = []\<rparr>" and H = "\<lambda>alg. [2, 4, 5]"
      and Hv = "\<lambda>alg. [2, 4, 5]" and Hr = "\<lambda>alg. [2, 1, 2, 3, 4, 5]"]
  have pre2: "EventType sample_efi_boot \<noteq> EventTypeNoAction
       \<and> range_order (Digests sample_efi_boot) [AlgorithmSha256]
       \<and> (\<forall>alg \<in> dom (Digests sample_efi_boot).
             hash sample_platform
               (if EventType sample_efi_boot = EventTypeEFIVariableBoot
                     \<and> \<not> EfiVariableBootQuirk sample_options then [4, 5] else [1, 2, 3, 4, 5])
               alg = Inr [2, 4, 5])"
    using ro hv by (simp add: t q dm)
  have c2: "checkEventDigests sample_platform sample_efi_boot LittleEndian sample_options
        [AlgorithmSha256] [AlgorithmSha256] \<lparr>Entries = []\<rparr> = Inr \<lparr>Entries = []\<rparr>"
    using inst [THEN conjunct2, THEN conjunct1, rule_format, OF pre2]
    by (simp add: dg)
  have pre3: "EventType sample_efi_boot = EventTypeEFIVariableBoot
       \<and> range_order (Digests sample_efi_boot) [AlgorithmSha256]
       \<and> (\<forall>alg \<in> dom (Digests sample_efi_boot).
             hash sample_platform [4, 5] alg = Inr [2, 4, 5]
               \<and> hash sample_platform [1, 2, 3, 4, 5] alg = Inr [2, 1, 2, 3, 4, 5]
               \<and> [2 :: byte, 4, 5] \<noteq> [2, 1, 2, 3, 4, 5])"
    using ro hv hr by (simp add: t dm)
  note three = inst [THEN conjunct2, THEN conjunct2, rule_format, OF pre3]
  have m: "\<forall>alg \<in> dom (Digests sample_efi_boot). Digests sample_efi_boot alg = Some [2, 4, 5]"
    by (simp add: dm dg)
  from three have off: "determineMeasuredBytes sample_platform sample_efi_boot LittleEndian
        (sample_options\<lparr>EfiVariableBootQuirk := False\<rparr>) [AlgorithmSha256] = Inr (Some [4, 5])"
    and on: "determineMeasuredBytes sample_platform sample_efi_boot LittleEndian
        (sample_options\<lparr>EfiVariableBootQuirk := True\<rparr>) [AlgorithmSha256]
        = Inr (Some [1, 2, 3, 4, 5])"
    by blast+
  from three m have coff: "checkEventDigests sample_platform sample_efi_boot LittleEndian
        (sample_options\<lparr>EfiVariableBootQuirk := False\<rparr>)
        [AlgorithmSha256] [AlgorithmSha256] \<lparr>Entries = []\<rparr> = Inr \<lparr>Entries = []\<rparr>"
    by blast
  from three m have "checkEventDigests sample_platform sample_efi_boot LittleEndian
        (sample_options\<lparr>EfiVariableBootQuirk := True\<rparr>)
        [AlgorithmSha256] [AlgorithmSha256] \<lparr>Entries = []\<rparr>
      = Inr (\<lparr>Entries = []\<rparr>\<lparr>Entries := Entries \<lparr>Entries = []\<rparr> @
               map (\<lambda>alg. UnexpectedDigestValueReportEntry sample_efi_boot alg
                            (Some [2, 1, 2, 3, 4, 5])) [AlgorithmSha256]\<rparr>)"
    by blast
  then have con: "checkEventDigests sample_platform sample_efi_boot LittleEndian
        (sample_options\<lparr>EfiVariableBootQuirk := True\<rparr>)
        [AlgorithmSha256] [AlgorithmSha256] \<lparr>Entries = []\<rparr>
      = Inr \<lparr>Entries = [UnexpectedDigestValueReportEntry sample_efi_boot AlgorithmSha256
                           (Some [2, 1, 2, 3, 4, 5])]\<rparr>"
    by simp
  from h1 t ro dg hv hr off on c2 coff con show ?thesis by blast
qed

text \<open>
  Claim C5 as first stated fails on a NoAction event with an EFI variable record
  payload: its measured bytes are the full record and its digest is the hash of the
  record, yet the expected digest is the all-zero digest and the digest check reports
  the event.
\<close>

theorem efi_variable_noaction_counterexample:
  "Data sample_noaction_efi = EFIVariableEventData [1, 2, 3, 4, 5] [6] ''BootOrder'' [4, 5]
   \<and> EventType sample_noaction_efi = EventTypeNoAction
   \<and> determineMeasuredBytes sample_platform sample_noaction_efi LittleEndian sample_options
        [AlgorithmSha256] = Inr (Some [1, 2, 3, 4, 5])
   \<and> hash sample_platform [1, 2, 3, 4, 5] AlgorithmSha256 = Inr [2, 1, 2, 3, 4, 5]
   \<and> Digests sample_noaction_efi AlgorithmSha256 = Some [2, 1, 2, 3, 4, 5]
   \<and> isExpectedDigestValue sample_platform [2, 1, 2, 3, 4, 5] (EventType sample_noaction_efi)
        AlgorithmSha256 (Some [1, 2, 3, 4, 5]) = Inr (False, Some (replicate 32 0))
   \<and> checkEventDigests sample_platform sample_noaction_efi LittleEndian sample_options
        [AlgorithmSha256] [AlgorithmSha256] \<lparr>Entries = []\<rparr>
      = Inr \<lparr>Entries = [UnexpectedDigestValueReportEntry sample_noaction_efi AlgorithmSha256
                           (Some (replicate 32 0))]\<rparr>
   \<and> Some (replicate 32 (0 :: byte)) \<noteq> Some [2, 1, 2, 3, 4, 5]"
proof -
  have ne: "[2 :: byte, 1, 2, 3, 4, 5] \<noteq> replicate 32 0"
    "replicate 32 (0 :: byte) \<noteq> [2, 1, 2, 3, 4, 5]"
    by (simp_all add: numeral_eq_Suc)
  have d: "Data sample_noaction_efi = EFIVariableEventData [1, 2, 3, 4, 5] [6] ''BootOrder'' [4, 5]"
    "EventType sample_noaction_efi = EventTypeNoAction"
    "Digests sample_noaction_efi AlgorithmSha256 = Some [2, 1, 2, 3, 4, 5]"
    by (simp_all add: sample_noaction_efi_def)
  have mb: "determineMeasuredBytes sample_platform sample_noaction_efi LittleEndian sample_options
        [AlgorithmSha256] = Inr (Some [1, 2, 3, 4, 5])"
    by (simp add: determineMeasuredBytes_def d)
  have h: "hash sample_platform [1, 2, 3, 4, 5] AlgorithmSha256 = Inr [2, 1, 2, 3, 4, 5]"
    by (simp add: sample_platform_def)
  have e: "isExpectedDigestValue sample_platform [2, 1, 2, 3, 4, 5] (EventType sample_noaction_efi)
        AlgorithmSha256 (Some [1, 2, 3, 4, 5]) = Inr (False, Some (replicate 32 0))"
    by (simp add: isExpectedDigestValue_def d ne)
  have c: "checkEventDigests sample_platform sample_noaction_efi LittleEndian sample_options
        [AlgorithmSha256] [AlgorithmSha256] \<lparr>Entries = []\<rparr>
      = Inr \<lparr>Entries = [UnexpectedDigestValueReportEntry sample_noaction_efi AlgorithmSha256
                           (Some (replicate 32 0))]\<rparr>"
    using e by (simp add: checkEventDigests_def mb range_map_Cons d append_entry_def)
  from d mb h e c ne show ?thesis by simp
qed

text \<open>
  Claim C9 as first stated fails with bootloader interpretation switched off in the
  options: the measured bytes of a kernel command line payload still are the decoded
  text, and a digest that is the hash of the text still passes.
\<close>

theorem bootloader_text_option_counterexample:
  "\<not> EnableGrub sample_options
   \<and> Data sample_kernel_cmdline = KernelCmdlineEventData [107, 58, 114, 111] [114, 111]
   \<and> determineMeasuredBytes sample_platform sample_kernel_cmdline LittleEndian sample_options
        [AlgorithmSha256] = Inr (Some [114, 111])
   \<and> isExpectedDigestValue sample_platform [2, 114, 111] (EventType sample_kernel_cmdline)
        AlgorithmSha256 (Some [114, 111]) = Inr (True, Some [2, 114, 111])"
  by (simp add: determineMeasuredBytes_def isExpectedDigestValue_def sample_options_def
        sample_kernel_cmdline_def sample_platform_def)

text \<open>
  Claim C9, as amended, on a kernel command line event.
\<close>

theorem bootloader_text_measured_bytes_witness:
  "(Data sample_kernel_cmdline = KernelCmdlineEventData [107, 58, 114, 111] [114, 111]
      \<or> Data sample_kernel_cmdline = GrubCmdEventData [107, 58, 114, 111] [114, 111])
   \<and> EventType sample_kernel_cmdline \<noteq> EventTypeNoAction
   \<and> hash sample_platform [114, 111] AlgorithmSha256 = Inr [2, 114, 111]
   \<and> determineMeasuredBytes sample_platform sample_kernel_cmdline LittleEndian
        (sample_options\<lparr>EnableGrub := True\<rparr>) [AlgorithmSha256] = Inr (Some [114, 111])
   \<and> isExpectedDigestValue sample_platform [2, 114, 111] (EventType sample_kernel_cmdline)
        AlgorithmSha256 (Some [114, 111]) = Inr (True, Some [2, 114, 111])"
proof -
  have h1: "Data sample_kernel_cmdline = KernelCmdlineEventData [107, 58, 114, 111] [114, 111]
      \<or> Data sample_kernel_cmdline = GrubCmdEventData [107, 58, 114, 111] [114, 111]"
    by (simp add: sample_kernel_cmdline_def)
  have t: "EventType sample_kernel_cmdline \<noteq> EventTypeNoAction"
    by (simp add: sample_kernel_cmdline_def)
  have h: "hash sample_platform [114, 111] AlgorithmSha256 = Inr [2, 114, 111]"
    by (simp add: sample_platform_def)
  note inst = bootloader_text_measured_bytes [OF h1, where P = sample_platform
      and order = LittleEndian and options = "sample_options\<lparr>EnableGrub := True\<rparr>"
      and ks = "[AlgorithmSha256]"]
  have a: "determineMeasuredBytes sample_platform sample_kernel_cmdline LittleEndian
        (sample_options\<lparr>EnableGrub := True\<rparr>) [AlgorithmSha256] = Inr (Some [114, 111])"
    by (rule inst [THEN conjunct1])
  have b: "isExpectedDigestValue sample_platform [2, 114, 111] (EventType sample_kernel_cmdline)
        AlgorithmSha256 (Some [114, 111]) = Inr ([2, 114, 111] = [2 :: byte, 114, 111], Some [2, 114, 111])"
    using inst [THEN conjunct2, THEN conjunct1, rule_format, of AlgorithmSha256 "[2, 114, 111]"] t h
    by simp
  from a b have
    "determineMeasuredBytes sample_platform sample_kernel_cmdline LittleEndian
        (sample_options\<lparr>EnableGrub := True\<rparr>) [AlgorithmSha256] = Inr (Some [114, 111])
     \<and> isExpectedDigestValue sample_platform [2, 114, 111] (EventType sample_kernel_cmdline)
        AlgorithmSha256 (Some [114, 111]) = Inr (True, Some [2, 114, 111])"
    by simp
  with h1 t h show ?thesis by simp
qed

text \<open>
  Claim C10 on a separator without digests.
\<close>

theorem empty_digest_mapping_witness:
  "Digests sample_bare_separator = Map.empty
   \<and> EventType sample_bare_separator = EventTypeSeparator
   \<and> checkEventDigests sample_platform sample_bare_separator LittleEndian sample_options [] []
        \<lparr>Entries = []\<rparr> = Inr \<lparr>Entries = []\<rparr>
   \<and> isSeparatorEventError sample_platform sample_bare_separator LittleEndian [] = Inr False
   \<and> checkEventData sample_platform sample_bare_separator LittleEndian []
        = Inr (Some (UnexpectedEventDataSize 2))"
proof -
  have h1: "Digests sample_bare_separator = Map.empty"
    by (simp add: sample_bare_separator_def)
  have t: "EventType sample_bare_separator = EventTypeSeparator"
    by (simp add: sample_bare_separator_def)
  have d: "Bytes (Data sample_bare_separator) = [1, 2]"
    by (simp add: sample_bare_separator_def)
  show ?thesis
    using h1 t empty_digest_mapping [OF h1, where P = sample_platform and order = LittleEndian
        and options = sample_options and ks_measured = "[]" and ks = "[]"
        and report = "\<lparr>Entries = []\<rparr>" and ks' = "[]"]
    by (simp add: d)
qed



lemma sample_digest_facts:
  "[1 :: byte] \<noteq> replicate 32 0"
  "Digests sample_noaction AlgorithmSha1 = Some (replicate 20 0)"
  "Digests sample_noaction AlgorithmSha256 = Some [1]"
  "EventType sample_noaction = EventTypeNoAction"
  "PCRIndex sample_noaction = 0"
  by (simp_all add: sample_noaction_def numeral_eq_Suc)

lemma sample_noaction_checks:
  "checkEventData sample_platform sample_noaction LittleEndian ks = Inr None"
  "checkEventDigests sample_platform sample_noaction LittleEndian sample_options
     [AlgorithmSha1, AlgorithmSha256] [AlgorithmSha1, AlgorithmSha256] \<lparr>Entries = []\<rparr>
   = Inr \<lparr>Entries = [UnexpectedDigestValueReportEntry sample_noaction AlgorithmSha256
                        (Some (replicate 32 0))]\<rparr>"
proof -
  show "checkEventData sample_platform sample_noaction LittleEndian ks = Inr None"
    by (simp add: checkEventData_def sample_digest_facts)
  have "Data sample_noaction = otherEventData [5]"
    by (simp add: sample_noaction_def)
  then have mb: "determineMeasuredBytes sample_platform sample_noaction LittleEndian sample_options
          [AlgorithmSha1, AlgorithmSha256] = Inr None"
    by (simp add: determineMeasuredBytes_def sample_digest_facts)
  show "checkEventDigests sample_platform sample_noaction LittleEndian sample_options
     [AlgorithmSha1, AlgorithmSha256] [AlgorithmSha1, AlgorithmSha256] \<lparr>Entries = []\<rparr>
   = Inr \<lparr>Entries = [UnexpectedDigestValueReportEntry sample_noaction AlgorithmSha256
                        (Some (replicate 32 0))]\<rparr>"
    by (simp add: checkEventDigests_def mb range_map_Cons sample_digest_facts
          isExpectedDigestValue_def append_entry_def)
qed

lemma sample_noaction_checkEvent:
  "checkEvent sample_platform sample_noaction (Some (OtherError ''decode'')) SpecPCClient
     LittleEndian sample_options (same_order [AlgorithmSha1, AlgorithmSha256]) report
   = Inr (report\<lparr>Entries := Entries report @
        [InvalidEventDataReportEntry sample_noaction (OtherError ''decode''),
         UnexpectedDigestValueReportEntry sample_noaction AlgorithmSha256
           (Some (replicate 32 0))]\<rparr>)"
  using checkEvent_entries [of sample_platform sample_noaction LittleEndian
      "same_order [AlgorithmSha1, AlgorithmSha256]" None sample_options
      "\<lparr>Entries = [UnexpectedDigestValueReportEntry sample_noaction AlgorithmSha256
                        (Some (replicate 32 0))]\<rparr>"
      "Some (OtherError ''decode'')" SpecPCClient report]
    sample_noaction_checks
  by (simp add: same_order_def sample_digest_facts)

lemma sample_normal_separator_checkEvent:
  "checkEvent sample_platform sample_normal_separator None SpecPCClient
     LittleEndian sample_options (same_order [AlgorithmSha1, AlgorithmSha256]) report
   = Inr report"
proof -
  have d: "Digests sample_normal_separator AlgorithmSha1 = Some [1, 255, 255, 255, 255]"
    "Digests sample_normal_separator AlgorithmSha256 = Some [2, 255, 255, 255, 255]"
    "EventType sample_normal_separator = EventTypeSeparator"
    "Data sample_normal_separator = opaqueEventData [255, 255, 255, 255]"
    by (simp_all add: sample_normal_separator_def)
  have h: "sha1_Sum sample_platform = (\<lambda>bs. 1 # bs)"
    "sha256_Sum256 sample_platform = (\<lambda>bs. 2 # bs)"
    "nativeEndian sample_platform = BigEndian"
    by (simp_all add: sample_platform_def)
  have c: "isSeparatorEventError sample_platform sample_normal_separator LittleEndian
        [AlgorithmSha1, AlgorithmSha256] = Inr False"
    by (simp add: isSeparatorEventError_def range_map_Cons d h separatorEventErrorValue_def)
  show ?thesis
    by (simp add: same_order_def checkEvent_def
          checkEventData_def checkEventDigests_def determineMeasuredBytes_def
          isExpectedDigestValue_def append_entry_def range_map_Cons c d h
          separatorEventNormalValues_def)
qed

lemma sample_pulls_known:
  "pulls sample_environment w evs w' \<Longrightarrow>
     \<forall>event err os. (event, err, os) \<in> set evs \<longrightarrow>
        dom (Digests event) \<subseteq> {AlgorithmSha1, AlgorithmSha256, AlgorithmSha384, AlgorithmSha512}"
proof (induction evs arbitrary: w)
  case Nil
  then show ?case by simp
next
  case (Cons x evs)
  obtain event err os where x: "x = (event, err, os)" by (cases x)
  from Cons.prems obtain w1 where
    nxt: "nextEventInternal sample_environment w = ((Some event, err), w1)"
    and rest: "pulls sample_environment w1 evs w'"
    by (auto simp: x split: prod.splits option.splits)
  from nxt have "dom (Digests event)
      \<subseteq> {AlgorithmSha1, AlgorithmSha256, AlgorithmSha384, AlgorithmSha512}"
    by (auto simp: sample_environment_def sample_normal_separator_def sample_noaction_def
          split: if_splits)
  with Cons.IH [OF rest] show ?case by (simp add: x)
qed

text \<open>
  Claim C8 on the sample stream.
\<close>

theorem validation_never_panics_witness:
  "pulls sample_environment (stream sample_log)
        [(sample_normal_separator, None, same_order [AlgorithmSha1, AlgorithmSha256])] 1
   \<and> (\<forall>p. checkLog sample_platform sample_environment sample_log sample_options
             \<noteq> Some (Inl p))
   \<and> (\<exists>r. checkEvents sample_platform (Spec sample_log) (byteOrder sample_log) sample_options
             [(sample_normal_separator, None, same_order [AlgorithmSha1, AlgorithmSha256])]
             \<lparr>Entries = []\<rparr> = Inr r)
   \<and> dom (Digests sample_normal_separator)
        \<subseteq> {AlgorithmSha1, AlgorithmSha256, AlgorithmSha384, AlgorithmSha512}
   \<and> (\<exists>r. checkEvent sample_platform sample_normal_separator None SpecPCClient LittleEndian
             sample_options (same_order [AlgorithmSha256, AlgorithmSha1]) \<lparr>Entries = []\<rparr>
           = Inr r)"
proof -
  have h: "\<forall>evs w'. pulls sample_environment (stream sample_log) evs w' \<longrightarrow>
      (\<forall>event err os. (event, err, os) \<in> set evs \<longrightarrow>
         dom (Digests event)
           \<subseteq> {AlgorithmSha1, AlgorithmSha256, AlgorithmSha384, AlgorithmSha512})"
    using sample_pulls_known by blast
  have n: "pulls sample_environment (stream sample_log)
        [(sample_normal_separator, None, same_order [AlgorithmSha1, AlgorithmSha256])] 1"
    by (simp add: sample_environment_def sample_log_def)
  have k: "dom (Digests sample_normal_separator)
        \<subseteq> {AlgorithmSha1, AlgorithmSha256, AlgorithmSha384, AlgorithmSha512}"
    by (simp add: sample_normal_separator_def)
  note inst = validation_never_panics [OF h, where P = sample_platform
      and options = sample_options]
  from inst have a: "\<forall>p. checkLog sample_platform sample_environment sample_log sample_options
             \<noteq> Some (Inl p)"
    by (rule conjunct1)
  from inst [THEN conjunct2, THEN conjunct1, rule_format, OF n] have
    b: "\<exists>r. checkEvents sample_platform (Spec sample_log) (byteOrder sample_log) sample_options
             [(sample_normal_separator, None, same_order [AlgorithmSha1, AlgorithmSha256])]
             \<lparr>Entries = []\<rparr> = Inr r" .
  from inst [THEN conjunct2, THEN conjunct2, rule_format, OF k] have
    c: "\<exists>r. checkEvent sample_platform sample_normal_separator None SpecPCClient LittleEndian
             sample_options (same_order [AlgorithmSha256, AlgorithmSha1]) \<lparr>Entries = []\<rparr>
           = Inr r"
    by (rule conjunct1)
  from n a b k c show ?thesis by blast
qed

text \<open>
  Claim C6 on the sample stream: the run from its first state, a run that meets a
  corrupted stream, and the step over the event that comes with a decode error.
\<close>

theorem driver_loop_outcomes_witness:
  "pulls sample_environment (stream sample_log)
     [(sample_normal_separator, None, same_order [AlgorithmSha1, AlgorithmSha256]),
      (sample_noaction, Some (OtherError ''decode''), same_order [AlgorithmSha1, AlgorithmSha256])]
     2
   \<and> nextEventInternal sample_environment 2 = ((None, Some EOF), 2)
   \<and> checkLog sample_platform sample_environment sample_log sample_options =
       Some (Inr (Some \<lparr>Entries =
         [InvalidEventDataReportEntry sample_noaction (OtherError ''decode''),
          UnexpectedDigestValueReportEntry sample_noaction AlgorithmSha256
            (Some (replicate 32 0))]\<rparr>, None))
   \<and> nextEventInternal sample_environment 3 = ((None, Some (OtherError ''corrupt'')), 3)
   \<and> checkLog sample_platform sample_environment (sample_log\<lparr>stream := 3\<rparr>) sample_options =
       Some (Inr (None, Some (OtherError ''corrupt'')))
   \<and> nextEventInternal sample_environment 1 =
       ((Some sample_noaction, Some (OtherError ''decode'')), 2)
   \<and> checkLog_loop sample_platform sample_environment (sample_log\<lparr>stream := 1\<rparr>)
        sample_options \<lparr>Entries = []\<rparr> =
       checkLog_loop sample_platform sample_environment (sample_log\<lparr>stream := 2\<rparr>)
        sample_options \<lparr>Entries =
         [InvalidEventDataReportEntry sample_noaction (OtherError ''decode''),
          UnexpectedDigestValueReportEntry sample_noaction AlgorithmSha256
            (Some (replicate 32 0))]\<rparr>"
proof -
  let ?os = "same_order [AlgorithmSha1, AlgorithmSha256]"
  let ?evs = "[(sample_normal_separator, None, ?os),
      (sample_noaction, Some (OtherError ''decode''), ?os)]"
  let ?R = "\<lparr>Entries =
         [InvalidEventDataReportEntry sample_noaction (OtherError ''decode''),
          UnexpectedDigestValueReportEntry sample_noaction AlgorithmSha256
            (Some (replicate 32 0))]\<rparr>"
  have p: "pulls sample_environment (stream sample_log) ?evs 2"
    by (simp add: sample_environment_def sample_log_def)
  have e: "nextEventInternal sample_environment 2 = ((None, Some EOF), 2)"
    by (simp add: sample_environment_def)
  have c: "checkEvents sample_platform (Spec sample_log) (byteOrder sample_log) sample_options
             ?evs \<lparr>Entries = []\<rparr> = Inr ?R"
    by (simp add: sample_log_def sample_normal_separator_checkEvent sample_noaction_checkEvent)
  have one: "checkLog sample_platform sample_environment sample_log sample_options =
       Some (Inr (Some ?R, None))"
    using driver_loop_outcomes [where P = sample_platform and W = sample_environment
        and log = sample_log and options = sample_options and r = ?R, THEN conjunct1] p e c
    by blast
  have p3: "pulls sample_environment (stream (sample_log\<lparr>stream := 3\<rparr>)) [] 3"
    by simp
  have e3: "nextEventInternal sample_environment 3 = ((None, Some (OtherError ''corrupt'')), 3)"
    by (simp add: sample_environment_def)
  have two: "checkLog sample_platform sample_environment (sample_log\<lparr>stream := 3\<rparr>)
               sample_options = Some (Inr (None, Some (OtherError ''corrupt'')))"
    using driver_loop_outcomes [where P = sample_platform and W = sample_environment
        and log = "sample_log\<lparr>stream := 3\<rparr>" and options = sample_options
        and evs = "[]" and w' = 3 and r' = "\<lparr>Entries = []\<rparr>"
        and err = "OtherError ''corrupt''" and w'' = 3,
        THEN conjunct2, THEN conjunct1] p3 e3
    by simp
  have n1: "nextEventInternal sample_environment (stream (sample_log\<lparr>stream := 1\<rparr>)) =
       ((Some sample_noaction, Some (OtherError ''decode'')), 2)"
    by (simp add: sample_environment_def)
  have o1: "mapOrders sample_environment w = ?os" for w
    by (simp add: sample_environment_def)
  have three: "checkLog_loop sample_platform sample_environment (sample_log\<lparr>stream := 1\<rparr>)
        sample_options \<lparr>Entries = []\<rparr> =
       checkLog_loop sample_platform sample_environment (sample_log\<lparr>stream := 2\<rparr>)
        sample_options ?R"
    using driver_loop_outcomes [where P = sample_platform and W = sample_environment
        and log = "sample_log\<lparr>stream := 1\<rparr>" and options = sample_options
        and event = sample_noaction and derr = "OtherError ''decode''" and ?w1.0 = 2
        and res = None
        and rd = "\<lparr>Entries = [UnexpectedDigestValueReportEntry sample_noaction AlgorithmSha256
                        (Some (replicate 32 0))]\<rparr>"
        and report = "\<lparr>Entries = []\<rparr>",
        THEN conjunct2, THEN conjunct2] n1 sample_noaction_checks
    by (simp add: o1 same_order_def sample_digest_facts sample_log_def)
  from p e one e3 two n1 three show ?thesis by simp
qed

end
